theory Spec2Isabelle
  imports Complex_Main "HOL-Library.AList" "HOL-Library.Word"
begin

section \<open>The voice chat of aura: class VoiceChat and the shared bot logic\<close>

text \<open>
  The class \<open>VoiceChat\<close> is embedded as a record of its fields together with the
  part of the browser it acts on: the media tracks, the RTCPeerConnection objects, the
  audio elements, the envelopes handed to the signal sender, the console, the callbacks
  invoked, the continuations of its \<open>async\<close> methods that wait for a promise of the
  browser, and the animation-frame callbacks that are scheduled.

  Conventions.
  \<^item> A JavaScript \<open>Map\<close> is an association list in insertion order:
    \<open>get\<close> is \<open>map_of\<close>, \<open>set\<close> is \<open>AList.update\<close> (an existing key keeps its place,
    a new key goes last), \<open>delete\<close> is \<open>AList.delete\<close>, \<open>keys()\<close> is \<open>map fst\<close>.
  \<^item> Objects that are shared by reference (tracks, peer connections, audio elements)
    live in lists that only grow; a reference is the index of the object.
  \<^item> An \<open>async\<close> method runs up to its first \<open>await\<close> when it is called; what
    follows runs when the browser settles the awaited promise (\<open>settle\<close>). The outcome of
    every promise of the browser is an input of the model.
  \<^item> JavaScript numbers are read as real numbers: rounding, NaN, the infinities and
    the sign of a zero are not modelled. Where the result of \<open>Math.atan2\<close> hangs on the
    sign of a zero, the model gives no value.
\<close>

subsection \<open>Values\<close>

datatype error = TypeError | DOMException

text \<open>\<open>v || d\<close> on an optional number: the default replaces a missing value and zero.\<close>

definition js_or :: "real option \<Rightarrow> real \<Rightarrow> real" where
  "js_or v d = (case v of None \<Rightarrow> d | Some x \<Rightarrow> if x = 0 then d else x)"

text \<open>
  The type \<open>Settings\<close> is declared in a file that is not among the sources. The class
  reads four fields of it: \<open>volume\<close>, and through a cast to \<open>any\<close> the fields
  \<open>ptt\<close> (only its truthiness), \<open>sensitivity\<close> and \<open>vad\<close> (only whether it is
  \<open>false\<close>). A missing field is \<open>None\<close>.
\<close>

record settings =
  volume :: "real option"
  ptt :: bool
  sensitivity :: "real option"
  vad :: "bool option"

datatype track_kind = Audio | Video

record track =
  kind :: track_kind
  track_enabled :: bool
  track_stopped :: bool

datatype sdp_type = Offer | Answer

datatype signaling_state =
  Stable | HaveLocalOffer | HaveRemoteOffer | HaveLocalPranswer | HaveRemotePranswer | Closed

text \<open>The calls the class makes on an RTCPeerConnection, in order.\<close>

datatype pc_call =
  AddTrack nat
| CreateOffer
| CreateAnswer
| SetLocalDescription sdp_type "string option"
| SetRemoteDescription sdp_type "string option"
| AddIceCandidate string
| Close

text \<open>
  \<open>pc_peer\<close> is the peer id the handlers \<open>ontrack\<close> and \<open>onicecandidate\<close> of the
  connection close over. \<open>signalingState\<close> belongs to the browser.
\<close>

record peer_connection =
  pc_peer :: string
  signalingState :: signaling_state
  pc_closed :: bool
  pc_calls :: "pc_call list"

text \<open>
  The field \<open>data\<close> of a signal has type \<open>any\<close>. Reading a property of
  \<open>undefined\<close> or \<open>null\<close> throws a TypeError; of any other value the two properties
  \<open>sdp\<close> and \<open>candidate\<close> are read, each of which may be missing. A candidate that is
  falsy counts as missing.
\<close>

datatype payload = Undefined | Payload "string option" "string option"

record signal =
  sig_from :: string
  signalType :: string
  sig_data :: payload

text \<open>The continuation of an \<open>async\<close> method that waits for a promise of the browser.\<close>

datatype task =
  ConnectCreateOffer string nat
| ConnectSetLocal string nat string
| OfferSetRemote string nat
| OfferCreateAnswer string nat
| OfferSetLocal string nat string
| AnswerSetRemote string nat
| IceAdd string nat

text \<open>
  How the browser settles a promise. \<open>Resolved v\<close>: for \<open>createOffer\<close> and
  \<open>createAnswer\<close> the text \<open>v\<close> is the SDP of the description; the other promises
  resolve with no value and \<open>v\<close> is not read.
\<close>

datatype outcome = Resolved string | Rejected

text \<open>
  The promise an \<open>async\<close> method returns: fulfilled (\<open>Some i\<close> is the connection
  \<open>i\<close>, \<open>None\<close> is \<open>null\<close> or \<open>undefined\<close>), rejected, or not settled yet.
\<close>

datatype completion = Fulfilled "nat option" | RejectedWith error | Awaiting

record audio_context =
  currentTime :: real

record analyser_node =
  fftSize :: nat

text \<open>\<open>gain_target\<close>: the last \<open>setTargetAtTime (target, startTime, timeConstant)\<close>.\<close>

record gain_node =
  gain_value :: real
  gain_target :: "(real \<times> real \<times> real) option"

record audio_element =
  srcObject :: "nat option"
  autoplay :: bool

datatype console_msg =
  VoiceInitFailed
| InitiatingVoiceConnection string
| DisconnectingVoice string
| IceCandidateError

datatype callback = SpeakingChange bool | VolumeUpdate real

subsection \<open>The state\<close>

record voice_chat =
  enabled :: bool
  localStream :: "nat list option"
  audioContext :: "audio_context option"
  analyser :: "analyser_node option"
  peers :: "(string \<times> nat) list"
  gains :: "(string \<times> gain_node) list"
  audioElements :: "(string \<times> nat) list"
  isSpeaking :: bool
  isPTTActive :: bool
  vadThreshold :: real
  userId :: string
  signalSender :: bool
  settings :: settings
  onSpeakingChange :: bool
  onVolumeUpdate :: bool
  tracks :: "track list"
  connections :: "peer_connection list"
  elements :: "audio_element list"
  sent :: "(string \<times> string \<times> payload) list"
  console :: "console_msg list"
  callbacks :: "callback list"
  pending :: "task list"
  animationFrames :: "nat list"

text \<open>
  \<open>localStream\<close> holds the tracks of the stream; \<open>peers\<close> and \<open>audioElements\<close> hold
  references into \<open>connections\<close> and \<open>elements\<close>. \<open>signalSender\<close>,
  \<open>onSpeakingChange\<close> and \<open>onVolumeUpdate\<close> say whether the function is set; the calls
  made to them are recorded in \<open>sent\<close> and \<open>callbacks\<close>. \<open>animationFrames\<close> holds,
  for every \<open>requestAnimationFrame(check)\<close> not yet run, the length of the
  \<open>dataArray\<close> of its closure.
\<close>

definition VoiceChat :: "settings \<Rightarrow> voice_chat" where
  "VoiceChat st =
     \<lparr>enabled = False, localStream = None, audioContext = None, analyser = None,
      peers = [], gains = [], audioElements = [], isSpeaking = False, isPTTActive = False,
      vadThreshold = 0.02, userId = [], signalSender = False, settings = st,
      onSpeakingChange = False, onVolumeUpdate = False, tracks = [], connections = [],
      elements = [], sent = [], console = [], callbacks = [], pending = [],
      animationFrames = []\<rparr>"

definition setUserId :: "string \<Rightarrow> voice_chat \<Rightarrow> voice_chat" where
  "setUserId ident s = s\<lparr>userId := ident\<rparr>"

definition setSignalSender :: "voice_chat \<Rightarrow> voice_chat" where
  "setSignalSender s = s\<lparr>signalSender := True\<rparr>"

subsection \<open>Objects behind references\<close>

definition update_at :: "nat \<Rightarrow> ('a \<Rightarrow> 'a) \<Rightarrow> 'a list \<Rightarrow> 'a list" where
  "update_at i f xs = (if i < length xs then xs[i := f (xs ! i)] else xs)"

definition forEach :: "nat list \<Rightarrow> ('a \<Rightarrow> 'a) \<Rightarrow> 'a list \<Rightarrow> 'a list" where
  "forEach ids f xs = fold (\<lambda>i. update_at i f) ids xs"

definition lookup :: "'a list \<Rightarrow> nat \<Rightarrow> 'a option" where
  "lookup xs i = (if i < length xs then Some (xs ! i) else None)"

definition getAudioTracks :: "track list \<Rightarrow> nat list \<Rightarrow> nat list" where
  "getAudioTracks ts ids = filter (\<lambda>i. map_option kind (lookup ts i) = Some Audio) ids"

definition call_pc :: "nat \<Rightarrow> pc_call \<Rightarrow> voice_chat \<Rightarrow> voice_chat" where
  "call_pc i c s =
     s\<lparr>connections := update_at i (\<lambda>p. p\<lparr>pc_calls := pc_calls p @ [c]\<rparr>) (connections s)\<rparr>"

text \<open>\<open>pc.close()\<close>.\<close>

definition close_pc :: "peer_connection \<Rightarrow> peer_connection" where
  "close_pc p = p\<lparr>signalingState := Closed, pc_closed := True, pc_calls := pc_calls p @ [Close]\<rparr>"

text \<open>\<open>audio.srcObject = null; audio.remove()\<close>. No element is ever inserted into the
  document, so \<open>remove()\<close> changes nothing.\<close>

definition release_audio :: "audio_element \<Rightarrow> audio_element" where
  "release_audio a = a\<lparr>srcObject := None\<rparr>"

subsection \<open>Capture and voice activity\<close>

text \<open>
  One run of the closure \<open>check\<close> of \<open>startVAD\<close>. \<open>n\<close> is the length of its
  \<open>dataArray\<close>, \<open>sample\<close> what \<open>getByteFrequencyData\<close> writes into it.
  \<open>reduce\<close> without an initial value throws a TypeError on an empty array.
\<close>

definition check :: "nat \<Rightarrow> (nat \<Rightarrow> 8 word) \<Rightarrow> voice_chat \<Rightarrow> error option \<times> voice_chat" where
  "check n sample s =
     (if \<not> enabled s \<or> analyser s = None then (None, s)
      else
        let dataArray = map sample [0..<n] in
        if dataArray = [] then (Some TypeError, s)
        else
          let avg = real (sum_list (map unat dataArray)) / real (length dataArray) / 255;
              threshold = vadThreshold s * (1 + (1 - js_or (sensitivity (settings s)) 0.5));
              wasSpeaking = isSpeaking s;
              s1 = (if ptt (settings s) then s\<lparr>isSpeaking := isPTTActive s \<and> avg > threshold * 0.5\<rparr>
                    else if vad (settings s) \<noteq> Some False then s\<lparr>isSpeaking := avg > threshold\<rparr>
                    else s);
              s2 = (if isSpeaking s1 \<noteq> wasSpeaking \<and> onSpeakingChange s1
                    then s1\<lparr>callbacks := callbacks s1 @ [SpeakingChange (isSpeaking s1)]\<rparr>
                    else s1);
              s3 = (if onVolumeUpdate s2
                    then s2\<lparr>callbacks := callbacks s2 @ [VolumeUpdate avg]\<rparr>
                    else s2)
          in (None, s3\<lparr>animationFrames := animationFrames s3 @ [n]\<rparr>))"

definition frequencyBinCount :: "analyser_node \<Rightarrow> nat" where
  "frequencyBinCount a = fftSize a div 2"

definition startVAD :: "(nat \<Rightarrow> 8 word) \<Rightarrow> voice_chat \<Rightarrow> error option \<times> voice_chat" where
  "startVAD sample s =
     (case analyser s of
        None \<Rightarrow> (None, s)
      | Some a \<Rightarrow> check (frequencyBinCount a) sample s)"

text \<open>The browser runs the first scheduled animation-frame callback.\<close>

definition frame :: "(nat \<Rightarrow> 8 word) \<Rightarrow> voice_chat \<Rightarrow> error option \<times> voice_chat" where
  "frame sample s =
     (case animationFrames s of
        [] \<Rightarrow> (None, s)
      | n # rest \<Rightarrow> check n sample (s\<lparr>animationFrames := rest\<rparr>))"

text \<open>
  \<open>init\<close>, from the moment the promise of \<open>getUserMedia\<close> settles (nothing happens
  before). \<open>mic\<close> is \<open>None\<close> when the promise is rejected, else the kinds of the
  tracks of the new stream; \<open>ctx\<close> is \<open>None\<close> when the constructor of the
  AudioContext throws; \<open>createMediaStreamSource\<close> throws when the stream has no audio
  track. \<open>sample\<close> is read by the first run of \<open>check\<close>.
\<close>

definition init ::
  "track_kind list option \<Rightarrow> audio_context option \<Rightarrow> (nat \<Rightarrow> 8 word) \<Rightarrow> voice_chat
     \<Rightarrow> bool \<times> voice_chat" where
  "init mic ctx sample s =
     (case mic of
        None \<Rightarrow> (False, s\<lparr>console := console s @ [VoiceInitFailed]\<rparr>)
      | Some kinds \<Rightarrow>
          let ids = [length (tracks s) ..< length (tracks s) + length kinds];
              s1 = s\<lparr>tracks := tracks s @
                         map (\<lambda>k. \<lparr>kind = k, track_enabled = True, track_stopped = False\<rparr>) kinds,
                       localStream := Some ids\<rparr>
          in (case ctx of
                None \<Rightarrow> (False, s1\<lparr>console := console s1 @ [VoiceInitFailed]\<rparr>)
              | Some c \<Rightarrow>
                  let s2 = s1\<lparr>audioContext := Some c\<rparr> in
                  if Audio \<notin> set kinds
                  then (False, s2\<lparr>console := console s2 @ [VoiceInitFailed]\<rparr>)
                  else
                    let s3 = s2\<lparr>analyser := Some \<lparr>fftSize = 256\<rparr>\<rparr>;
                        s4 = s3\<lparr>tracks := forEach (getAudioTracks (tracks s3) ids)
                                   (\<lambda>t. t\<lparr>track_enabled := \<not> ptt (settings s3)\<rparr>) (tracks s3)\<rparr>;
                        s5 = s4\<lparr>enabled := True\<rparr>
                    in (case startVAD sample s5 of
                          (None, s6) \<Rightarrow> (True, s6)
                        | (Some e, s6) \<Rightarrow> (False, s6\<lparr>console := console s6 @ [VoiceInitFailed]\<rparr>))))"

definition setPTT :: "bool \<Rightarrow> voice_chat \<Rightarrow> voice_chat" where
  "setPTT active s =
     (let s1 = s\<lparr>isPTTActive := active\<rparr> in
      case localStream s1 of
        None \<Rightarrow> s1
      | Some ids \<Rightarrow>
          s1\<lparr>tracks := forEach (getAudioTracks (tracks s1) ids)
                 (\<lambda>t. t\<lparr>track_enabled := active\<rparr>) (tracks s1)\<rparr>)"

subsection \<open>Peer connections\<close>

text \<open>
  The block that \<open>connectToPeer\<close> and the offer branch of \<open>handleSignal\<close> both
  contain: a new RTCPeerConnection, every track of the local stream added to it, its two
  handlers set, and the connection stored in \<open>peers\<close>.
\<close>

definition register_connection :: "string \<Rightarrow> voice_chat \<Rightarrow> nat \<times> voice_chat" where
  "register_connection peerId s =
     (let pc = length (connections s) in
      (pc, s\<lparr>connections := connections s @
                  [\<lparr>pc_peer = peerId, signalingState = Stable, pc_closed = False,
                    pc_calls = (case localStream s of None \<Rightarrow> [] | Some ids \<Rightarrow> map AddTrack ids)\<rparr>],
              peers := AList.update peerId pc (peers s)\<rparr>))"

text \<open>The handler \<open>pc.ontrack\<close> of the connection made for \<open>peerId\<close>; \<open>stream\<close> is
  \<open>event.streams[0]\<close>.\<close>

definition ontrack :: "string \<Rightarrow> nat \<Rightarrow> voice_chat \<Rightarrow> voice_chat" where
  "ontrack peerId stream s =
     (let s1 = (case map_of (audioElements s) peerId of
                  None \<Rightarrow> s
                | Some a \<Rightarrow> s\<lparr>elements := update_at a release_audio (elements s)\<rparr>);
          audio = length (elements s1);
          s2 = s1\<lparr>elements := elements s1 @ [\<lparr>srcObject = Some stream, autoplay = True\<rparr>],
                  audioElements := AList.update peerId audio (audioElements s1)\<rparr>
      in case audioContext s2 of
           None \<Rightarrow> s2
         | Some c \<Rightarrow>
             s2\<lparr>gains := AList.update peerId \<lparr>gain_value = 1, gain_target = None\<rparr> (gains s2)\<rparr>)"

text \<open>The handler \<open>pc.onicecandidate\<close>; \<open>cand\<close> is \<open>event.candidate\<close>.\<close>

definition onicecandidate :: "string \<Rightarrow> string option \<Rightarrow> voice_chat \<Rightarrow> voice_chat" where
  "onicecandidate peerId cand s =
     (case cand of
        None \<Rightarrow> s
      | Some c \<Rightarrow>
          if signalSender s
          then s\<lparr>sent := sent s @ [(peerId, ''ice'', Payload None (Some c))]\<rparr>
          else s)"

text \<open>\<open>connectToPeer\<close> up to \<open>await pc.createOffer()\<close>.\<close>

definition connectToPeer :: "string \<Rightarrow> voice_chat \<Rightarrow> completion \<times> voice_chat" where
  "connectToPeer peerId s =
     (if \<not> enabled s \<or> map_of (peers s) peerId \<noteq> None then (Fulfilled None, s)
      else
        let (pc, s1) = register_connection peerId s;
            s2 = call_pc pc CreateOffer s1
        in (Awaiting, s2\<lparr>pending := pending s2 @ [ConnectCreateOffer peerId pc]\<rparr>))"

text \<open>\<open>handleSignal\<close> up to its first \<open>await\<close>.\<close>

definition handleSignal :: "signal \<Rightarrow> voice_chat \<Rightarrow> completion \<times> voice_chat" where
  "handleSignal sg s =
     (if \<not> enabled s then (Fulfilled None, s)
      else if signalType sg = ''offer'' then
        let (pc, s1) = (case map_of (peers s) (sig_from sg) of
                          Some pc \<Rightarrow> (pc, s)
                        | None \<Rightarrow> register_connection (sig_from sg) s)
        in (case sig_data sg of
              Undefined \<Rightarrow> (RejectedWith TypeError, s1)
            | Payload sdp cand \<Rightarrow>
                let s2 = call_pc pc (SetRemoteDescription Offer sdp) s1
                in (Awaiting, s2\<lparr>pending := pending s2 @ [OfferSetRemote (sig_from sg) pc]\<rparr>))
      else if signalType sg = ''answer'' then
        (case map_of (peers s) (sig_from sg) of
           None \<Rightarrow> (Fulfilled None, s)
         | Some pc \<Rightarrow>
             if map_option signalingState (lookup (connections s) pc) \<noteq> Some Stable
             then (case sig_data sg of
                     Undefined \<Rightarrow> (RejectedWith TypeError, s)
                   | Payload sdp cand \<Rightarrow>
                       let s1 = call_pc pc (SetRemoteDescription Answer sdp) s
                       in (Awaiting, s1\<lparr>pending := pending s1 @ [AnswerSetRemote (sig_from sg) pc]\<rparr>))
             else (Fulfilled None, s))
      else if signalType sg = ''ice'' then
        (case sig_data sg of
           Undefined \<Rightarrow> (RejectedWith TypeError, s)
         | Payload sdp None \<Rightarrow> (Fulfilled None, s)
         | Payload sdp (Some c) \<Rightarrow>
             (case map_of (peers s) (sig_from sg) of
                None \<Rightarrow> (Fulfilled None, s)
              | Some pc \<Rightarrow>
                  let s1 = call_pc pc (AddIceCandidate c) s
                  in (Awaiting, s1\<lparr>pending := pending s1 @ [IceAdd (sig_from sg) pc]\<rparr>)))
      else (Fulfilled None, s))"

text \<open>
  The continuation \<open>t\<close> runs with the outcome of the promise it waits for, up to the next
  \<open>await\<close> (then a task is returned) or to the end of the method. A rejected promise
  makes \<open>await\<close> throw; only \<open>addIceCandidate\<close> is awaited inside \<open>try\<close>.
\<close>

fun resume :: "task \<Rightarrow> outcome \<Rightarrow> voice_chat \<Rightarrow> completion \<times> task option \<times> voice_chat" where
  "resume (ConnectCreateOffer peerId pc) (Resolved sdp) s =
     (Awaiting, Some (ConnectSetLocal peerId pc sdp),
      call_pc pc (SetLocalDescription Offer (Some sdp)) s)"
| "resume (ConnectSetLocal peerId pc sdp) (Resolved v) s =
     (Fulfilled (Some pc), None,
      if signalSender s then s\<lparr>sent := sent s @ [(peerId, ''offer'', Payload (Some sdp) None)]\<rparr>
      else s)"
| "resume (OfferSetRemote peer pc) (Resolved v) s =
     (Awaiting, Some (OfferCreateAnswer peer pc), call_pc pc CreateAnswer s)"
| "resume (OfferCreateAnswer peer pc) (Resolved sdp) s =
     (Awaiting, Some (OfferSetLocal peer pc sdp),
      call_pc pc (SetLocalDescription Answer (Some sdp)) s)"
| "resume (OfferSetLocal peer pc sdp) (Resolved v) s =
     (Fulfilled None, None,
      if signalSender s then s\<lparr>sent := sent s @ [(peer, ''answer'', Payload (Some sdp) None)]\<rparr>
      else s)"
| "resume (AnswerSetRemote peer pc) (Resolved v) s = (Fulfilled None, None, s)"
| "resume (IceAdd peer pc) (Resolved v) s = (Fulfilled None, None, s)"
| "resume (IceAdd peer pc) Rejected s =
     (Fulfilled None, None, s\<lparr>console := console s @ [IceCandidateError]\<rparr>)"
| "resume t Rejected s = (RejectedWith DOMException, None, s)"

text \<open>The browser settles the promise that the \<open>k\<close>-th pending continuation waits for.\<close>

definition settle :: "nat \<Rightarrow> outcome \<Rightarrow> voice_chat \<Rightarrow> completion \<times> voice_chat" where
  "settle k out s =
     (case lookup (pending s) k of
        None \<Rightarrow> (Awaiting, s)
      | Some t \<Rightarrow>
          (case resume t out s of
             (c, None, s1) \<Rightarrow> (c, s1\<lparr>pending := take k (pending s1) @ drop (Suc k) (pending s1)\<rparr>)
           | (c, Some t1, s1) \<Rightarrow> (c, s1\<lparr>pending := (pending s1)[k := t1]\<rparr>)))"

definition updateSpatialAudio :: "string \<Rightarrow> real \<Rightarrow> real \<Rightarrow> voice_chat \<Rightarrow> voice_chat" where
  "updateSpatialAudio peerId distance maxDistance s =
     (case map_of (gains s) peerId of
        None \<Rightarrow> s
      | Some gain \<Rightarrow>
          (case audioContext s of
             None \<Rightarrow> s
           | Some c \<Rightarrow>
               let volume0 = max 0 (1 - (distance / maxDistance) powr 0.8);
                   volume1 = volume0 * js_or (volume (settings s)) 0.7
               in s\<lparr>gains := AList.update peerId
                             (gain\<lparr>gain_target := Some (volume1, currentTime c, 0.1)\<rparr>) (gains s)\<rparr>))"

definition disconnectPeer :: "string \<Rightarrow> voice_chat \<Rightarrow> voice_chat" where
  "disconnectPeer peerId s =
     (let s1 = (case map_of (peers s) peerId of
                  None \<Rightarrow> s
                | Some pc \<Rightarrow> s\<lparr>connections := update_at pc close_pc (connections s),
                               peers := AList.delete peerId (peers s)\<rparr>);
          s2 = s1\<lparr>gains := AList.delete peerId (gains s1)\<rparr>
      in case map_of (audioElements s2) peerId of
           None \<Rightarrow> s2
         | Some audio \<Rightarrow> s2\<lparr>elements := update_at audio release_audio (elements s2),
                            audioElements := AList.delete peerId (audioElements s2)\<rparr>)"

text \<open>
  \<open>nearbyPlayerIds\<close> is a \<open>Set\<close>, given as the list of its elements in iteration order.
  The promise of \<open>connectToPeer\<close> is dropped. The second loop walks the keys of
  \<open>peers\<close> while \<open>disconnectPeer\<close> deletes the key just visited and no other.
\<close>

definition connect_new :: "string \<Rightarrow> voice_chat \<Rightarrow> voice_chat" where
  "connect_new peerId s =
     (if peerId = userId s then s
      else if map_of (peers s) peerId = None
      then snd (connectToPeer peerId (s\<lparr>console := console s @ [InitiatingVoiceConnection peerId]\<rparr>))
      else s)"

definition disconnect_gone :: "string list \<Rightarrow> string \<Rightarrow> voice_chat \<Rightarrow> voice_chat" where
  "disconnect_gone nearbyPlayerIds peerId s =
     (if peerId \<notin> set nearbyPlayerIds
      then disconnectPeer peerId (s\<lparr>console := console s @ [DisconnectingVoice peerId]\<rparr>)
      else s)"

definition updateNearbyPeers :: "string list \<Rightarrow> real \<Rightarrow> voice_chat \<Rightarrow> voice_chat" where
  "updateNearbyPeers nearbyPlayerIds voiceRange s =
     (if \<not> enabled s then s
      else
        let s1 = fold connect_new nearbyPlayerIds s
        in fold (disconnect_gone nearbyPlayerIds) (map fst (peers s1)) s1)"

definition getConnectedPeers :: "voice_chat \<Rightarrow> string set" where
  "getConnectedPeers s = set (map fst (peers s))"

definition disable :: "voice_chat \<Rightarrow> voice_chat" where
  "disable s =
     (let s1 = s\<lparr>enabled := False, isSpeaking := False\<rparr>;
          s2 = (case localStream s1 of
                  None \<Rightarrow> s1
                | Some ids \<Rightarrow>
                    s1\<lparr>tracks := forEach ids (\<lambda>t. t\<lparr>track_stopped := True\<rparr>) (tracks s1),
                       localStream := None\<rparr>);
          s3 = s2\<lparr>connections := forEach (map snd (peers s2)) close_pc (connections s2)\<rparr>;
          s4 = s3\<lparr>peers := [], gains := []\<rparr>;
          s5 = s4\<lparr>elements := forEach (map snd (audioElements s4)) release_audio (elements s4)\<rparr>
      in s5\<lparr>audioElements := []\<rparr>)"

subsection \<open>Everything that can happen to a VoiceChat\<close>

text \<open>
  A call of a public method, or the browser doing one of: settling a promise, running an
  animation frame, firing \<open>ontrack\<close> or \<open>onicecandidate\<close> on a connection, moving
  the signaling state of a connection that is not closed (as it does when a description
  has been applied; only \<open>close()\<close> makes it closed). The values the methods return
  are dropped here. The clock of the audio context is not advanced.
\<close>

datatype event =
  SetUserId string
| SetSignalSender
| SetOnSpeakingChange bool
| SetOnVolumeUpdate bool
| Init "track_kind list option" "audio_context option" "nat \<Rightarrow> 8 word"
| Frame "nat \<Rightarrow> 8 word"
| SetPTT bool
| ConnectToPeer string
| HandleSignal signal
| Settle nat outcome
| Track nat nat
| IceCandidate nat "string option"
| SignalingStateChange nat signaling_state
| UpdateSpatialAudio string real real
| DisconnectPeer string
| UpdateNearbyPeers "string list" real
| Disable

fun step :: "event \<Rightarrow> voice_chat \<Rightarrow> voice_chat" where
  "step (SetUserId ident) s = setUserId ident s"
| "step SetSignalSender s = setSignalSender s"
| "step (SetOnSpeakingChange b) s = s\<lparr>onSpeakingChange := b\<rparr>"
| "step (SetOnVolumeUpdate b) s = s\<lparr>onVolumeUpdate := b\<rparr>"
| "step (Init mic ctx sample) s = snd (init mic ctx sample s)"
| "step (Frame sample) s = snd (frame sample s)"
| "step (SetPTT active) s = setPTT active s"
| "step (ConnectToPeer peerId) s = snd (connectToPeer peerId s)"
| "step (HandleSignal sg) s = snd (handleSignal sg s)"
| "step (Settle k out) s = snd (settle k out s)"
| "step (Track pc stream) s =
     (case lookup (connections s) pc of
        None \<Rightarrow> s
      | Some p \<Rightarrow> ontrack (pc_peer p) stream s)"
| "step (IceCandidate pc cand) s =
     (case lookup (connections s) pc of
        None \<Rightarrow> s
      | Some p \<Rightarrow> onicecandidate (pc_peer p) cand s)"
| "step (SignalingStateChange pc st) s =
     s\<lparr>connections :=
         update_at pc (\<lambda>p. if pc_closed p \<or> st = Closed then p else p\<lparr>signalingState := st\<rparr>)
           (connections s)\<rparr>"
| "step (UpdateSpatialAudio peerId distance maxDistance) s =
     updateSpatialAudio peerId distance maxDistance s"
| "step (DisconnectPeer peerId) s = disconnectPeer peerId s"
| "step (UpdateNearbyPeers nearbyPlayerIds voiceRange) s =
     updateNearbyPeers nearbyPlayerIds voiceRange s"
| "step Disable s = disable s"

definition run :: "event list \<Rightarrow> voice_chat \<Rightarrow> voice_chat" where
  "run es s = fold step es s"

text \<open>The connections made for \<open>peerId\<close> that are not closed.\<close>

definition live_connections :: "voice_chat \<Rightarrow> string \<Rightarrow> nat list" where
  "live_connections s peerId =
     filter (\<lambda>i. pc_peer (connections s ! i) = peerId \<and> \<not> pc_closed (connections s ! i))
       [0..<length (connections s)]"

text \<open>Every connection that is not closed is the one \<open>peers\<close> holds for its peer.\<close>

definition registry_inv :: "voice_chat \<Rightarrow> bool" where
  "registry_inv s \<longleftrightarrow>
     (\<forall>i < length (connections s).
        \<not> pc_closed (connections s ! i) \<longrightarrow>
        map_of (peers s) (pc_peer (connections s ! i)) = Some i)"

text \<open>The state \<open>s'\<close> has the registry of \<open>s\<close>: the same \<open>peers\<close>, and the same
  connections as far as their peer and whether they are closed.\<close>

definition same_registry :: "voice_chat \<Rightarrow> voice_chat \<Rightarrow> bool" where
  "same_registry s s' \<longleftrightarrow>
     peers s' = peers s \<and>
     map pc_peer (connections s') = map pc_peer (connections s) \<and>
     map pc_closed (connections s') = map pc_closed (connections s)"

section \<open>Shared bot logic\<close>



definition hypot :: "real \<Rightarrow> real \<Rightarrow> real" where
  "hypot a b = sqrt (a\<^sup>2 + b\<^sup>2)"

text \<open>
  \<open>Math.atan2 (y, x)\<close> on real numbers. Where \<open>y\<close> is zero and \<open>x\<close> is not
  positive, JavaScript decides by the signs of the zeros (\<open>Math.atan2 (0, -1)\<close> is
  \<open>\<pi>\<close>, \<open>Math.atan2 (-0, -1)\<close> is \<open>-\<pi>\<close>, and \<open>-bot.y\<close> is \<open>-0\<close> for a
  \<open>bot.y\<close> that is \<open>0\<close>). A real number has no signed zero, so the model gives no
  value there: the result is \<open>None\<close>. Everywhere else the sign of a zero changes
  nothing.
\<close>

definition atan2 :: "real \<Rightarrow> real \<Rightarrow> real option" where
  "atan2 y x =
     (if y = 0 \<and> x \<le> 0 then None
      else Some (if 0 < x then arctan (y / x)
                 else if x < 0 then (if 0 < y then arctan (y / x) + pi else arctan (y / x) - pi)
                 else if 0 < y then pi / 2
                 else - (pi / 2)))"


section \<open>What two claims say, in their own words\<close>

text \<open>
  The voice-activity rule as the specification words it: the level is compared with
  \<open>base_threshold * (1 + (1 - sensitivity))\<close>, and push-to-talk asks for the gate and
  halves the threshold.
\<close>

definition isSpeaking_claimed :: "real \<Rightarrow> real \<Rightarrow> bool \<Rightarrow> bool \<Rightarrow> real \<Rightarrow> bool" where
  "isSpeaking_claimed base_threshold sensitivity_value push_to_talk gate level =
     (let effective_threshold = base_threshold * (1 + (1 - sensitivity_value)) in
      if push_to_talk then gate \<and> level > effective_threshold / 2
      else level > effective_threshold)"


section \<open>Concrete inputs\<close>

abbreviation demo_settings :: settings where
  "demo_settings \<equiv> \<lparr>volume = Some 1, ptt = False, sensitivity = Some (1 / 2), vad = None\<rparr>"

abbreviation ptt_settings :: settings where
  "ptt_settings \<equiv> \<lparr>volume = Some 1, ptt = True, sensitivity = Some (1 / 2), vad = None\<rparr>"

abbreviation novad_settings :: settings where
  "novad_settings \<equiv> \<lparr>volume = Some 1, ptt = False, sensitivity = Some (1 / 2), vad = Some False\<rparr>"

abbreviation muted_settings :: settings where
  "muted_settings \<equiv> \<lparr>volume = Some 0, ptt = False, sensitivity = Some (1 / 2), vad = None\<rparr>"

text \<open>A chat whose \<open>init\<close> succeeded with one audio track and silence at the microphone.\<close>

abbreviation demo_chat :: "settings \<Rightarrow> voice_chat" where
  "demo_chat st \<equiv>
     snd (init (Some [Audio]) (Some \<lparr>currentTime = 0\<rparr>) (\<lambda>i. 0) (VoiceChat st))"

text \<open>The same after \<open>connectToPeer\<close> for the peer b.\<close>

abbreviation demo_connected :: "settings \<Rightarrow> voice_chat" where
  "demo_connected st \<equiv> snd (connectToPeer ''b'' (demo_chat st))"

text \<open>The same after a track of the peer b arrived.\<close>

abbreviation demo_heard :: "settings \<Rightarrow> voice_chat" where
  "demo_heard st \<equiv> ontrack ''b'' 7 (demo_connected st)"


section \<open>Facts about the helpers\<close>

lemma length_update_at [simp]: "length (update_at i f xs) = length xs"
  by (simp add: update_at_def)

lemma nth_update_at:
  "update_at i f xs ! j = (if j = i \<and> i < length xs then f (xs ! i) else xs ! j)"
  by (simp add: update_at_def)

lemma map_update_at:
  assumes "\<And>x. g (f x) = g x"
  shows "map g (update_at i f xs) = map g xs"
  by (simp add: update_at_def map_update assms list_update_same_conv)

lemma forEach_Nil [simp]: "forEach [] f xs = xs"
  by (simp add: forEach_def)

lemma forEach_Cons [simp]: "forEach (i # ids) f xs = forEach ids f (update_at i f xs)"
  by (simp add: forEach_def)

lemma length_forEach [simp]: "length (forEach ids f xs) = length xs"
  by (induction ids arbitrary: xs) simp_all

lemma forEach_notin: "j \<notin> set ids \<Longrightarrow> forEach ids f xs ! j = xs ! j"
  by (induction ids arbitrary: xs) (auto simp: nth_update_at)

lemma forEach_preserve:
  assumes "\<And>x. P x \<Longrightarrow> P (f x)" and "P (xs ! j)"
  shows "P (forEach ids f xs ! j)"
  using assms(2)
proof (induction ids arbitrary: xs)
  case Nil
  then show ?case by simp
next
  case (Cons i ids)
  from Cons.prems assms(1) have "P (update_at i f xs ! j)"
    by (auto simp: nth_update_at)
  then show ?case by (simp add: Cons.IH)
qed

lemma forEach_establish:
  assumes "\<And>x. P (f x)" and "j \<in> set ids" and "j < length xs"
  shows "P (forEach ids f xs ! j)"
  using assms(2,3)
proof (induction ids arbitrary: xs)
  case Nil
  then show ?case by simp
next
  case (Cons i ids)
  show ?case
  proof (cases "j \<in> set ids")
    case True
    with Cons show ?thesis by simp
  next
    case False
    with Cons.prems have "j = i" by simp
    with False Cons.prems assms(1) show ?thesis
      by (simp add: forEach_notin nth_update_at)
  qed
qed

lemma forEach_idem:
  assumes "\<And>x. f (f x) = f x" and "j \<in> set ids" and "j < length xs"
  shows "forEach ids f xs ! j = f (xs ! j)"
  using assms(2,3)
proof (induction ids arbitrary: xs)
  case Nil
  then show ?case by simp
next
  case (Cons i ids)
  show ?case
  proof (cases "j \<in> set ids")
    case True
    with Cons assms(1) show ?thesis by (simp add: nth_update_at)
  next
    case False
    with Cons.prems have "j = i" by simp
    with False Cons.prems show ?thesis
      by (simp add: forEach_notin nth_update_at)
  qed
qed

lemma forEach_map_inv:
  assumes "\<And>x. g (f x) = g x"
  shows "map g (forEach ids f xs) = map g xs"
  by (induction ids arbitrary: xs) (simp_all add: map_update_at assms)

lemma getAudioTracks_set:
  "i \<in> set (getAudioTracks ts ids) \<longleftrightarrow> i \<in> set ids \<and> i < length ts \<and> kind (ts ! i) = Audio"
  by (auto simp: getAudioTracks_def lookup_def)

lemma fold_id: "(\<And>x. x \<in> set xs \<Longrightarrow> f x s = s) \<Longrightarrow> fold f xs s = s"
  by (induction xs) simp_all

lemma sum_list_const: "sum_list (map unat (map (\<lambda>i. c) xs)) = length xs * unat c"
  by (induction xs) simp_all

lemma sum_unat_le: "sum_list (map unat (ws :: 8 word list)) \<le> 255 * length ws"
proof (induction ws)
  case Nil
  then show ?case by simp
next
  case (Cons w ws)
  have "unat w < 2 ^ 8"
    using unsigned_less [of w, where ?'a = nat] by simp
  with Cons show ?case by simp
qed

lemma level_bounds:
  assumes "0 < n"
  shows "0 \<le> real (sum_list (map unat (map sample [0..<n] :: 8 word list))) / real n / 255"
    and "real (sum_list (map unat (map sample [0..<n] :: 8 word list))) / real n / 255 \<le> 1"
proof -
  show "0 \<le> real (sum_list (map unat (map sample [0..<n] :: 8 word list))) / real n / 255"
    by simp
  have "sum_list (map unat (map sample [0..<n] :: 8 word list)) \<le> 255 * n"
    using sum_unat_le [of "map sample [0..<n]"] by simp
  then have "real (sum_list (map unat (map sample [0..<n] :: 8 word list))) \<le> 255 * real n"
    by (metis of_nat_le_iff of_nat_mult of_nat_numeral)
  with assms
  show "real (sum_list (map unat (map sample [0..<n] :: 8 word list))) / real n / 255 \<le> 1"
    by (simp add: field_simps)
qed





lemma atan2_None: "atan2 y x = None \<longleftrightarrow> y = 0 \<and> x \<le> 0"
  by (simp add: atan2_def)

text \<open>Where the model has an angle, the angle points from the origin to \<open>(x, y)\<close>.\<close>

lemma hypot_factor:
  fixes x y :: real
  assumes "x \<noteq> 0"
  shows "hypot x y = \<bar>x\<bar> * sqrt (1 + (y / x)\<^sup>2)"
proof -
  have "x\<^sup>2 + y\<^sup>2 = x\<^sup>2 * (1 + (y / x)\<^sup>2)"
    using assms by (simp add: field_simps power2_eq_square)
  then have "hypot x y = sqrt (x\<^sup>2 * (1 + (y / x)\<^sup>2))"
    by (simp only: hypot_def)
  also have "\<dots> = \<bar>x\<bar> * sqrt (1 + (y / x)\<^sup>2)"
    by (simp add: real_sqrt_mult)
  finally show ?thesis .
qed

lemma sqrt_one_plus_pos: "0 < sqrt (1 + (t::real)\<^sup>2)"
  by (simp add: add_pos_nonneg)

lemma arctan_ray:
  fixes x y :: real
  assumes "x \<noteq> 0"
  shows "hypot x y * cos (arctan (y / x)) = \<bar>x\<bar>"
    and "hypot x y * sin (arctan (y / x)) = \<bar>x\<bar> * (y / x)"
  using sqrt_one_plus_pos [of "y / x"]
  by (simp_all add: hypot_factor [OF assms] cos_arctan sin_arctan)

lemma atan2_direction:
  assumes "atan2 y x = Some a"
  shows "hypot x y * cos a = x \<and> hypot x y * sin a = y \<and> - pi < a \<and> a < pi"
proof -
  have lb: "- (pi / 2) < arctan (y / x)" and ub: "arctan (y / x) < pi / 2"
    by (rule arctan_lbound, rule arctan_ubound)
  consider (right) "0 < x" | (left_up) "x < 0" "0 < y" | (left_down) "x < 0" "y < 0"
    | (up) "x = 0" "0 < y" | (down) "x = 0" "y < 0"
    using assms by (cases "0 < x"; cases "x < 0"; cases "0 < y"; cases "y < 0")
      (auto simp: atan2_def split: if_splits)
  then show ?thesis
  proof cases
    case right
    then have a: "a = arctan (y / x)" using assms by (simp add: atan2_def split: if_splits)
    from right have "x \<noteq> 0" by simp
    have "- pi < a \<and> a < pi"
      unfolding a using lb ub pi_gt_zero by (intro conjI; linarith)
    with arctan_ray [OF \<open>x \<noteq> 0\<close>, of y] right show ?thesis
      unfolding a by simp
  next
    case left_up
    then have a: "a = arctan (y / x) + pi" using assms by (simp add: atan2_def split: if_splits)
    from left_up have nz: "x \<noteq> 0" by simp
    from left_up have "y / x < 0" by (simp add: divide_pos_neg)
    then have neg: "arctan (y / x) < 0" by (simp add: arctan_less_zero_iff)
    have "- pi < a \<and> a < pi"
      unfolding a using lb neg pi_gt_zero by (intro conjI; linarith)
    with arctan_ray [OF nz, of y] left_up show ?thesis
      unfolding a by (simp add: algebra_simps)
  next
    case left_down
    then have a: "a = arctan (y / x) - pi" using assms by (simp add: atan2_def split: if_splits)
    from left_down have nz: "x \<noteq> 0" by simp
    from left_down have "0 < y / x" by (simp add: divide_neg_neg)
    then have pos: "0 < arctan (y / x)" by (simp add: zero_less_arctan_iff)
    have "- pi < a \<and> a < pi"
      unfolding a using ub pos pi_gt_zero by (intro conjI; linarith)
    with arctan_ray [OF nz, of y] left_down show ?thesis
      unfolding a by (simp add: algebra_simps)
  next
    case up
    then have a: "a = pi / 2" using assms by (simp add: atan2_def split: if_splits)
    have "- pi < a \<and> a < pi"
      unfolding a using pi_gt_zero by (intro conjI; linarith)
    with up show ?thesis unfolding a by (simp add: hypot_def)
  next
    case down
    then have a: "a = - (pi / 2)" using assms by (simp add: atan2_def split: if_splits)
    have "- pi < a \<and> a < pi"
      unfolding a using pi_gt_zero by (intro conjI; linarith)
    with down show ?thesis unfolding a by (simp add: hypot_def)
  qed
qed

text \<open>A sensitivity of zero is taken for a missing one.\<close>

lemma js_or_zero: "js_or (Some 0) d = d"
  by (simp add: js_or_def)


subsection \<open>The concrete chat\<close>

lemma check_silence:
  "enabled s \<Longrightarrow> analyser s = Some a \<Longrightarrow> 0 < n \<Longrightarrow>
   check n (\<lambda>i. 0) s =
     (let threshold = vadThreshold s * (1 + (1 - js_or (sensitivity (settings s)) 0.5));
          s1 = (if ptt (settings s) then s\<lparr>isSpeaking := isPTTActive s \<and> 0 > threshold * 0.5\<rparr>
                else if vad (settings s) \<noteq> Some False then s\<lparr>isSpeaking := 0 > threshold\<rparr>
                else s);
          s2 = (if isSpeaking s1 \<noteq> isSpeaking s \<and> onSpeakingChange s1
                then s1\<lparr>callbacks := callbacks s1 @ [SpeakingChange (isSpeaking s1)]\<rparr>
                else s1);
          s3 = (if onVolumeUpdate s2
                then s2\<lparr>callbacks := callbacks s2 @ [VolumeUpdate 0]\<rparr>
                else s2)
      in (None, s3\<lparr>animationFrames := animationFrames s3 @ [n]\<rparr>))"
  by (simp add: check_def Let_def sum_list_const del: map_map)

lemma demo_chat_eq:
  assumes "sensitivity st = Some (1 / 2)"
  shows "demo_chat st = (VoiceChat st)
     \<lparr>enabled := True, localStream := Some [0], audioContext := Some \<lparr>currentTime = 0\<rparr>,
      analyser := Some \<lparr>fftSize = 256\<rparr>,
      tracks := [\<lparr>kind = Audio, track_enabled = \<not> ptt st, track_stopped = False\<rparr>],
      animationFrames := [128]\<rparr>"
proof (cases "ptt st")
  case True
  with assms show ?thesis
    by (simp add: init_def startVAD_def frequencyBinCount_def check_silence VoiceChat_def Let_def
        forEach_def getAudioTracks_def lookup_def update_at_def js_or_def)
next
  case False
  show ?thesis
  proof (cases "vad st = Some False")
    case True
    with \<open>\<not> ptt st\<close> assms show ?thesis
      by (simp add: init_def startVAD_def frequencyBinCount_def check_silence VoiceChat_def Let_def
          forEach_def getAudioTracks_def lookup_def update_at_def js_or_def)
  next
    case False
    with \<open>\<not> ptt st\<close> assms show ?thesis
      by (simp add: init_def startVAD_def frequencyBinCount_def check_silence VoiceChat_def Let_def
          forEach_def getAudioTracks_def lookup_def update_at_def js_or_def)
  qed
qed

lemma demo_connected_eq:
  assumes "sensitivity st = Some (1 / 2)"
  shows "demo_connected st = (VoiceChat st)
     \<lparr>enabled := True, localStream := Some [0], audioContext := Some \<lparr>currentTime = 0\<rparr>,
      analyser := Some \<lparr>fftSize = 256\<rparr>, peers := [(''b'', 0)],
      tracks := [\<lparr>kind = Audio, track_enabled = \<not> ptt st, track_stopped = False\<rparr>],
      connections := [\<lparr>pc_peer = ''b'', signalingState = Stable, pc_closed = False,
                       pc_calls = [AddTrack 0, CreateOffer]\<rparr>],
      pending := [ConnectCreateOffer ''b'' 0],
      animationFrames := [128]\<rparr>"
  unfolding demo_chat_eq [OF assms]
  by (simp add: VoiceChat_def connectToPeer_def register_connection_def call_pc_def update_at_def)

lemma demo_heard_eq:
  assumes "sensitivity st = Some (1 / 2)"
  shows "demo_heard st = (VoiceChat st)
     \<lparr>enabled := True, localStream := Some [0], audioContext := Some \<lparr>currentTime = 0\<rparr>,
      analyser := Some \<lparr>fftSize = 256\<rparr>, peers := [(''b'', 0)],
      gains := [(''b'', \<lparr>gain_value = 1, gain_target = None\<rparr>)],
      audioElements := [(''b'', 0)],
      tracks := [\<lparr>kind = Audio, track_enabled = \<not> ptt st, track_stopped = False\<rparr>],
      connections := [\<lparr>pc_peer = ''b'', signalingState = Stable, pc_closed = False,
                       pc_calls = [AddTrack 0, CreateOffer]\<rparr>],
      elements := [\<lparr>srcObject = Some 7, autoplay = True\<rparr>],
      pending := [ConnectCreateOffer ''b'' 0],
      animationFrames := [128]\<rparr>"
  unfolding demo_connected_eq [OF assms]
  by (simp add: VoiceChat_def ontrack_def)

subsection \<open>What the methods do to the fields\<close>

lemma call_pc_fields [simp]:
  "enabled (call_pc i c s) = enabled s"
  "userId (call_pc i c s) = userId s"
  "peers (call_pc i c s) = peers s"
  "pending (call_pc i c s) = pending s"
  "sent (call_pc i c s) = sent s"
  "length (connections (call_pc i c s)) = length (connections s)"
  by (simp_all add: call_pc_def)

lemma register_connection_fields [simp]:
  "enabled (snd (register_connection p s)) = enabled s"
  "userId (snd (register_connection p s)) = userId s"
  "peers (snd (register_connection p s)) = AList.update p (length (connections s)) (peers s)"
  "pending (snd (register_connection p s)) = pending s"
  "sent (snd (register_connection p s)) = sent s"
  "fst (register_connection p s) = length (connections s)"
  "length (connections (snd (register_connection p s))) = Suc (length (connections s))"
  by (simp_all add: register_connection_def Let_def)

lemma connectToPeer_fields:
  "enabled (snd (connectToPeer p s)) = enabled s"
  "userId (snd (connectToPeer p s)) = userId s"
  "peers (snd (connectToPeer p s)) =
     (if enabled s \<and> map_of (peers s) p = None
      then AList.update p (length (connections s)) (peers s) else peers s)"
  by (simp_all add: connectToPeer_def Let_def case_prod_beta)

lemma connect_new_fields:
  "enabled (connect_new p s) = enabled s"
  "userId (connect_new p s) = userId s"
  "peers (connect_new p s) =
     (if enabled s \<and> p \<noteq> userId s \<and> map_of (peers s) p = None
      then AList.update p (length (connections s)) (peers s) else peers s)"
  by (simp_all add: connect_new_def connectToPeer_fields)

lemma connect_new_id:
  "p = userId s \<or> map_of (peers s) p \<noteq> None \<Longrightarrow> connect_new p s = s"
  by (auto simp: connect_new_def)

lemma fold_connect_new_fields:
  "enabled (fold connect_new xs s) = enabled s"
  "userId (fold connect_new xs s) = userId s"
  by (induction xs arbitrary: s) (simp_all add: connect_new_fields)

lemma connect_new_mono:
  "map_of (peers s) q \<noteq> None \<Longrightarrow> map_of (peers (connect_new p s)) q \<noteq> None"
  by (simp add: connect_new_fields update_conv')

lemma fold_connect_new_mono:
  "map_of (peers s) q \<noteq> None \<Longrightarrow> map_of (peers (fold connect_new xs s)) q \<noteq> None"
proof (induction xs arbitrary: s)
  case Nil
  then show ?case by simp
next
  case (Cons x xs)
  from Cons.prems have "map_of (peers (connect_new x s)) q \<noteq> None"
    by (rule connect_new_mono)
  then have "map_of (peers (fold connect_new xs (connect_new x s))) q \<noteq> None"
    by (rule Cons.IH)
  then show ?case by simp
qed

lemma fold_connect_new_registered:
  "enabled s \<Longrightarrow> p \<in> set xs \<Longrightarrow> p \<noteq> userId s \<Longrightarrow>
   map_of (peers (fold connect_new xs s)) p \<noteq> None"
proof (induction xs arbitrary: s)
  case Nil
  then show ?case by simp
next
  case (Cons x xs)
  show ?case
  proof (cases "p = x")
    case True
    with Cons.prems have "map_of (peers (connect_new x s)) p \<noteq> None"
      by (simp add: connect_new_fields update_conv')
    then show ?thesis by (simp add: fold_connect_new_mono)
  next
    case False
    with Cons.prems have "p \<in> set xs" by simp
    with Cons.IH [of "connect_new x s"] Cons.prems show ?thesis
      by (simp add: connect_new_fields)
  qed
qed

lemma disconnectPeer_fields:
  "enabled (disconnectPeer p s) = enabled s"
  "userId (disconnectPeer p s) = userId s"
  "map_of (peers (disconnectPeer p s)) = (map_of (peers s))(p := None)"
  by (auto simp: disconnectPeer_def Let_def delete_conv' split: option.splits)

lemma disconnect_gone_fields:
  "enabled (disconnect_gone S k s) = enabled s"
  "userId (disconnect_gone S k s) = userId s"
  "map_of (peers (disconnect_gone S k s)) q =
     (if q = k \<and> k \<notin> set S then None else map_of (peers s) q)"
  by (simp_all add: disconnect_gone_def disconnectPeer_fields)

lemma disconnect_gone_id: "k \<in> set S \<Longrightarrow> disconnect_gone S k s = s"
  by (simp add: disconnect_gone_def)

lemma fold_disconnect_gone_fields:
  "enabled (fold (disconnect_gone S) ks s) = enabled s"
  "userId (fold (disconnect_gone S) ks s) = userId s"
  "map_of (peers (fold (disconnect_gone S) ks s)) q =
     (if q \<in> set ks \<and> q \<notin> set S then None else map_of (peers s) q)"
  by (induction ks arbitrary: s) (auto simp: disconnect_gone_fields)

subsection \<open>The registry\<close>

lemma same_registry_refl [simp]: "same_registry s s"
  by (simp add: same_registry_def)

lemma same_registry_trans:
  "same_registry s s1 \<Longrightarrow> same_registry s1 s2 \<Longrightarrow> same_registry s s2"
  by (simp add: same_registry_def)

lemma same_registry_fields:
  "peers s' = peers s \<Longrightarrow> connections s' = connections s \<Longrightarrow> same_registry s s'"
  by (simp add: same_registry_def)

lemma registry_inv_same:
  assumes "same_registry s s'" and "registry_inv s"
  shows "registry_inv s'"
proof -
  from assms(1) have p: "peers s' = peers s"
    and mp: "map pc_peer (connections s') = map pc_peer (connections s)"
    and mc: "map pc_closed (connections s') = map pc_closed (connections s)"
    by (simp_all add: same_registry_def)
  from mp have len: "length (connections s') = length (connections s)"
    by (rule map_eq_imp_length_eq)
  have "pc_peer (connections s' ! i) = pc_peer (connections s ! i)"
    and "pc_closed (connections s' ! i) = pc_closed (connections s ! i)"
    if "i < length (connections s)" for i
    using that len mp mc by (metis nth_map)+
  with assms(2) p len show ?thesis
    by (simp add: registry_inv_def)
qed

lemma same_registry_call_pc [simp]: "same_registry s (call_pc i c s)"
  by (simp add: same_registry_def call_pc_def map_update_at)

lemma same_registry_pending [simp]:
  "same_registry s (s'\<lparr>pending := ts\<rparr>) = same_registry s s'"
  "same_registry s (s'\<lparr>sent := xs\<rparr>) = same_registry s s'"
  "same_registry s (s'\<lparr>console := cs\<rparr>) = same_registry s s'"
  by (simp_all add: same_registry_def)

lemma check_registry: "same_registry s (snd (check n sample s))"
  by (simp add: check_def Let_def same_registry_def)

lemma startVAD_registry: "same_registry s (snd (startVAD sample s))"
  by (simp add: startVAD_def check_registry split: option.splits)

lemma frame_registry: "same_registry s (snd (frame sample s))"
proof (cases "animationFrames s")
  case Nil
  then show ?thesis by (simp add: frame_def)
next
  case (Cons n rest)
  have "same_registry (s\<lparr>animationFrames := rest\<rparr>) (snd (check n sample (s\<lparr>animationFrames := rest\<rparr>)))"
    by (rule check_registry)
  with Cons show ?thesis by (simp add: frame_def same_registry_def)
qed

lemma init_registry: "same_registry s (snd (init mic ctx sample s))"
proof (cases mic)
  case None
  then show ?thesis by (simp add: init_def)
next
  case (Some kinds)
  show ?thesis
  proof (cases ctx)
    case None
    with Some show ?thesis by (simp add: init_def Let_def same_registry_def)
  next
    case (Some c)
    show ?thesis
    proof (cases "Audio \<in> set kinds")
      case False
      with Some \<open>mic = Some kinds\<close> show ?thesis
        by (simp add: init_def Let_def same_registry_def)
    next
      case True
      define s5 where "s5 = (let ids = [length (tracks s) ..< length (tracks s) + length kinds];
              s1 = s\<lparr>tracks := tracks s @
                         map (\<lambda>k. \<lparr>kind = k, track_enabled = True, track_stopped = False\<rparr>) kinds,
                       localStream := Some ids\<rparr>;
              s2 = s1\<lparr>audioContext := Some c\<rparr>;
              s3 = s2\<lparr>analyser := Some \<lparr>fftSize = 256\<rparr>\<rparr>;
              s4 = s3\<lparr>tracks := forEach (getAudioTracks (tracks s3) ids)
                                   (\<lambda>t. t\<lparr>track_enabled := \<not> ptt (settings s3)\<rparr>) (tracks s3)\<rparr>
          in s4\<lparr>enabled := True\<rparr>)"
      have a: "same_registry s s5"
        by (simp add: s5_def Let_def same_registry_def)
      have b: "same_registry s5 (snd (startVAD sample s5))"
        by (rule startVAD_registry)
      have "snd (init mic ctx sample s) = snd (startVAD sample s5) \<or>
            snd (init mic ctx sample s) =
              (snd (startVAD sample s5))\<lparr>console := console (snd (startVAD sample s5)) @ [VoiceInitFailed]\<rparr>"
        using True Some \<open>mic = Some kinds\<close>
        by (simp add: init_def Let_def s5_def split: prod.splits option.splits)
      with same_registry_trans [OF a b] show ?thesis
        by auto
    qed
  qed
qed

lemma setPTT_registry: "same_registry s (setPTT active s)"
  by (simp add: setPTT_def Let_def same_registry_def split: option.splits)

lemma ontrack_registry: "same_registry s (ontrack p stream s)"
  by (simp add: ontrack_def Let_def same_registry_def split: option.splits)

lemma onicecandidate_registry: "same_registry s (onicecandidate p cand s)"
  by (simp add: onicecandidate_def same_registry_def split: option.splits)

lemma updateSpatialAudio_registry: "same_registry s (updateSpatialAudio p d m s)"
  by (simp add: updateSpatialAudio_def Let_def same_registry_def split: option.splits)

lemma resume_registry: "same_registry s (snd (snd (resume t out s)))"
  by (cases "(t, out, s)" rule: resume.cases) simp_all

lemma settle_registry: "same_registry s (snd (settle k out s))"
proof (cases "lookup (pending s) k")
  case None
  then show ?thesis by (simp add: settle_def)
next
  case (Some t)
  obtain c t' s1 where r: "resume t out s = (c, t', s1)"
    by (cases "resume t out s") auto
  with resume_registry [of s t out] have "same_registry s s1" by simp
  with Some r show ?thesis
    by (cases t') (simp_all add: settle_def)
qed

lemma register_connection_inv:
  assumes "registry_inv s" and "map_of (peers s) p = None"
  shows "registry_inv (snd (register_connection p s))"
  unfolding registry_inv_def
proof (intro allI impI)
  fix i
  let ?s = "snd (register_connection p s)"
  assume i: "i < length (connections ?s)" and open_i: "\<not> pc_closed (connections ?s ! i)"
  show "map_of (peers ?s) (pc_peer (connections ?s ! i)) = Some i"
  proof (cases "i < length (connections s)")
    case True
    then have same: "connections ?s ! i = connections s ! i"
      by (simp add: register_connection_def Let_def nth_append)
    with open_i assms(1) True
    have reg: "map_of (peers s) (pc_peer (connections s ! i)) = Some i"
      by (simp add: registry_inv_def)
    with assms(2) have "pc_peer (connections s ! i) \<noteq> p" by auto
    with reg same show ?thesis by (simp add: update_conv')
  next
    case False
    with i have "i = length (connections s)" by simp
    then show ?thesis
      by (simp add: register_connection_def Let_def update_conv')
  qed
qed

lemma connectToPeer_inv:
  assumes "registry_inv s"
  shows "registry_inv (snd (connectToPeer p s))"
proof (cases "\<not> enabled s \<or> map_of (peers s) p \<noteq> None")
  case True
  with assms show ?thesis by (auto simp: connectToPeer_def)
next
  case False
  then have "registry_inv (snd (register_connection p s))"
    using assms by (simp add: register_connection_inv)
  moreover have "same_registry (snd (register_connection p s)) (snd (connectToPeer p s))"
    using False by (simp add: connectToPeer_def case_prod_beta Let_def)
  ultimately show ?thesis by (rule registry_inv_same [rotated])
qed

lemma handleSignal_inv:
  assumes "registry_inv s"
  shows "registry_inv (snd (handleSignal sg s))"
proof (cases "enabled s \<and> signalType sg = ''offer''")
  case False
  have "same_registry s (snd (handleSignal sg s))"
    using False
    by (auto simp: handleSignal_def Let_def split: option.splits payload.splits)
  with assms show ?thesis by (rule registry_inv_same [rotated])
next
  case True
  define s1 where "s1 = (case map_of (peers s) (sig_from sg) of
      Some pc \<Rightarrow> s | None \<Rightarrow> snd (register_connection (sig_from sg) s))"
  have "registry_inv s1"
    using assms by (simp add: s1_def register_connection_inv split: option.splits)
  moreover have "same_registry s1 (snd (handleSignal sg s))"
    using True
    by (simp add: handleSignal_def s1_def Let_def case_prod_beta
        split: option.splits payload.splits)
  ultimately show ?thesis by (rule registry_inv_same [rotated])
qed

lemma disconnectPeer_inv:
  assumes "registry_inv s"
  shows "registry_inv (disconnectPeer p s)"
  unfolding registry_inv_def
proof (intro allI impI)
  fix i
  let ?s = "disconnectPeer p s"
  assume i: "i < length (connections ?s)" and open_i: "\<not> pc_closed (connections ?s ! i)"
  have len: "length (connections ?s) = length (connections s)"
    by (simp add: disconnectPeer_def Let_def split: option.splits)
  have conn: "connections ?s =
      (case map_of (peers s) p of None \<Rightarrow> connections s
       | Some pc \<Rightarrow> update_at pc close_pc (connections s))"
    by (simp add: disconnectPeer_def Let_def split: option.splits)
  have peer_i: "pc_peer (connections ?s ! i) = pc_peer (connections s ! i)"
    by (simp add: conn nth_update_at close_pc_def split: option.splits)
  have open_before: "\<not> pc_closed (connections s ! i)"
    using open_i by (auto simp: conn nth_update_at close_pc_def split: option.splits if_splits)
  with assms i len have reg: "map_of (peers s) (pc_peer (connections s ! i)) = Some i"
    by (simp add: registry_inv_def)
  have "pc_peer (connections s ! i) \<noteq> p"
  proof
    assume "pc_peer (connections s ! i) = p"
    with reg have "map_of (peers s) p = Some i" by simp
    with i len have "pc_closed (connections ?s ! i)"
      by (simp add: conn nth_update_at close_pc_def)
    with open_i show False by simp
  qed
  with reg peer_i show "map_of (peers ?s) (pc_peer (connections ?s ! i)) = Some i"
    by (simp add: disconnectPeer_fields)
qed

lemma disable_all_closed:
  assumes "registry_inv s" and "i < length (connections s)"
  shows "pc_closed (connections (disable s) ! i)"
proof -
  have conn: "connections (disable s) = forEach (map snd (peers s)) close_pc (connections s)"
    by (simp add: disable_def Let_def split: option.splits)
  show ?thesis
  proof (cases "pc_closed (connections s ! i)")
    case True
    have "pc_closed (forEach (map snd (peers s)) close_pc (connections s) ! i)"
      by (rule forEach_preserve [where P = pc_closed])
        (use True in \<open>simp_all add: close_pc_def\<close>)
    then show ?thesis by (simp add: conn)
  next
    case False
    with assms have "map_of (peers s) (pc_peer (connections s ! i)) = Some i"
      by (simp add: registry_inv_def)
    then have "i \<in> set (map snd (peers s))"
      by (metis map_of_SomeD set_zip_rightD zip_map_fst_snd)
    then have "pc_closed (forEach (map snd (peers s)) close_pc (connections s) ! i)"
      by (intro forEach_establish [where P = pc_closed] assms(2)) (simp add: close_pc_def)
    then show ?thesis by (simp add: conn)
  qed
qed

lemma disable_inv:
  assumes "registry_inv s"
  shows "registry_inv (disable s)"
proof -
  have "length (connections (disable s)) = length (connections s)"
    by (simp add: disable_def Let_def split: option.splits)
  with disable_all_closed [OF assms] show ?thesis
    by (simp add: registry_inv_def)
qed

lemma connect_new_inv: "registry_inv s \<Longrightarrow> registry_inv (connect_new p s)"
proof -
  assume inv: "registry_inv s"
  have "same_registry s (s\<lparr>console := console s @ [InitiatingVoiceConnection p]\<rparr>)"
    by simp
  with inv have "registry_inv (s\<lparr>console := console s @ [InitiatingVoiceConnection p]\<rparr>)"
    by (rule registry_inv_same [rotated])
  then have "registry_inv (snd (connectToPeer p (s\<lparr>console := console s @ [InitiatingVoiceConnection p]\<rparr>)))"
    by (rule connectToPeer_inv)
  with inv show ?thesis by (simp add: connect_new_def)
qed

lemma disconnect_gone_inv: "registry_inv s \<Longrightarrow> registry_inv (disconnect_gone S p s)"
proof -
  assume inv: "registry_inv s"
  have "same_registry s (s\<lparr>console := console s @ [DisconnectingVoice p]\<rparr>)"
    by simp
  with inv have "registry_inv (s\<lparr>console := console s @ [DisconnectingVoice p]\<rparr>)"
    by (rule registry_inv_same [rotated])
  then have "registry_inv (disconnectPeer p (s\<lparr>console := console s @ [DisconnectingVoice p]\<rparr>))"
    by (rule disconnectPeer_inv)
  with inv show ?thesis by (simp add: disconnect_gone_def)
qed

lemma fold_connect_new_inv: "registry_inv s \<Longrightarrow> registry_inv (fold connect_new xs s)"
  by (induction xs arbitrary: s) (simp_all add: connect_new_inv)

lemma fold_disconnect_gone_inv:
  "registry_inv s \<Longrightarrow> registry_inv (fold (disconnect_gone S) xs s)"
  by (induction xs arbitrary: s) (simp_all add: disconnect_gone_inv)

lemma updateNearbyPeers_inv:
  assumes "registry_inv s"
  shows "registry_inv (updateNearbyPeers S r s)"
proof (cases "enabled s")
  case False
  with assms show ?thesis by (simp add: updateNearbyPeers_def)
next
  case True
  have "registry_inv (fold connect_new S s)"
    using assms by (rule fold_connect_new_inv)
  then have "registry_inv (fold (disconnect_gone S) (map fst (peers (fold connect_new S s)))
      (fold connect_new S s))"
    by (rule fold_disconnect_gone_inv)
  with True show ?thesis by (simp add: updateNearbyPeers_def Let_def)
qed

lemma step_inv:
  assumes "registry_inv s"
  shows "registry_inv (step e s)"
proof (cases e)
  case (Init mic ctx sample)
  with assms init_registry [of s mic ctx sample] show ?thesis
    by (simp add: registry_inv_same)
next
  case (Frame sample)
  with assms frame_registry [of s sample] show ?thesis
    by (simp add: registry_inv_same)
next
  case (SetPTT active)
  with assms setPTT_registry [of s active] show ?thesis
    by (simp add: registry_inv_same)
next
  case (ConnectToPeer p)
  with assms show ?thesis by (simp add: connectToPeer_inv)
next
  case (HandleSignal sg)
  with assms show ?thesis by (simp add: handleSignal_inv)
next
  case (Settle k out)
  with assms settle_registry [of s k out] show ?thesis
    by (simp add: registry_inv_same)
next
  case (Track pc stream)
  with assms show ?thesis
    by (auto split: option.splits intro: registry_inv_same [OF ontrack_registry])
next
  case (IceCandidate pc cand)
  with assms show ?thesis
    by (auto split: option.splits intro: registry_inv_same [OF onicecandidate_registry])
next
  case (SignalingStateChange pc st)
  have "same_registry s (step (SignalingStateChange pc st) s)"
    by (simp add: same_registry_def map_update_at)
  with assms SignalingStateChange show ?thesis
    by (simp only: registry_inv_same)
next
  case (UpdateSpatialAudio p d m)
  with assms updateSpatialAudio_registry [of s p d m] show ?thesis
    by (simp add: registry_inv_same)
next
  case (DisconnectPeer p)
  with assms show ?thesis by (simp add: disconnectPeer_inv)
next
  case (UpdateNearbyPeers S r)
  with assms show ?thesis by (simp add: updateNearbyPeers_inv)
next
  case Disable
  with assms show ?thesis by (simp add: disable_inv)
qed (use assms in \<open>simp_all add: registry_inv_def setUserId_def setSignalSender_def\<close>)

lemma run_inv: "registry_inv s \<Longrightarrow> registry_inv (run es s)"
  unfolding run_def by (induction es arbitrary: s) (simp_all add: step_inv)

lemma registry_inv_VoiceChat: "registry_inv (VoiceChat st)"
  by (simp add: registry_inv_def VoiceChat_def)

lemma filter_at_most_one:
  assumes "distinct ks"
    and unique: "\<And>a b. \<lbrakk>a \<in> set ks; b \<in> set ks; Q a; Q b\<rbrakk> \<Longrightarrow> a = b"
  shows "length (filter Q ks) \<le> 1"
  using assms
proof (induction ks)
  case Nil
  then show ?case by simp
next
  case (Cons k ks)
  show ?case
  proof (cases "Q k")
    case True
    have "filter Q ks = []"
    proof (rule ccontr)
      assume "filter Q ks \<noteq> []"
      then obtain b where b: "b \<in> set ks" "Q b"
        by (metis filter_False)
      with True Cons.prems(2) [of k b] have "k = b" by simp
      with b Cons.prems(1) show False by simp
    qed
    with True show ?thesis by simp
  next
    case False
    with Cons show ?thesis by simp
  qed
qed

lemma registry_inv_at_most_one:
  assumes "registry_inv s"
  shows "length (live_connections s p) \<le> 1"
  unfolding live_connections_def
proof (rule filter_at_most_one)
  show "distinct [0..<length (connections s)]" by simp
next
  fix i j
  assume "i \<in> set [0..<length (connections s)]" "j \<in> set [0..<length (connections s)]"
    and "pc_peer (connections s ! i) = p \<and> \<not> pc_closed (connections s ! i)"
    and "pc_peer (connections s ! j) = p \<and> \<not> pc_closed (connections s ! j)"
  with assms have "map_of (peers s) p = Some i" "map_of (peers s) p = Some j"
    by (auto simp: registry_inv_def)
  then show "i = j" by simp
qed

section \<open>The claims\<close>

subsection \<open>C1: at most one connection for a peer\<close>

text \<open>
  Claim C1. Start from a new \<open>VoiceChat\<close> and let anything happen in any order:
  calls of the public methods (\<open>connectToPeer\<close> and \<open>handleSignal\<close> among them),
  the browser settling the promise of any pending continuation with any outcome, and
  the browser's events. At every point, of the connections ever made for one peer id at
  most one is not closed. \<open>connectToPeer\<close> stores the new connection in \<open>peers\<close>
  in the part that runs before its first \<open>await\<close>, where nothing is handed to the
  signal sender; the offer is handed over two continuations later, when
  \<open>setLocalDescription\<close> has resolved. An offer from a peer that has a connection in
  \<open>peers\<close> makes no connection: the remote description is applied to the one stored.
\<close>

theorem at_most_one_connection:
  "length (live_connections (run es (VoiceChat st)) peerId) \<le> 1 \<and>
   (enabled s \<and> map_of (peers s) peerId = None \<longrightarrow>
      fst (connectToPeer peerId s) = Awaiting \<and>
      map_of (peers (snd (connectToPeer peerId s))) peerId = Some (length (connections s)) \<and>
      length (connections (snd (connectToPeer peerId s))) = Suc (length (connections s)) \<and>
      sent (snd (connectToPeer peerId s)) = sent s) \<and>
   (lookup (pending s) k = Some (ConnectSetLocal peerId pc offer) \<and> signalSender s \<longrightarrow>
      sent (snd (settle k (Resolved v) s)) =
        sent s @ [(peerId, ''offer'', Payload (Some offer) None)]) \<and>
   (enabled s \<and> signalType sg = ''offer'' \<and> map_of (peers s) (sig_from sg) = Some pc \<longrightarrow>
      peers (snd (handleSignal sg s)) = peers s \<and>
      length (connections (snd (handleSignal sg s))) = length (connections s)) \<and>
   (enabled s \<and> signalType sg = ''offer'' \<and> map_of (peers s) (sig_from sg) = Some pc \<and>
      sig_data sg = Payload sdp cand \<longrightarrow>
      handleSignal sg s =
        (Awaiting, (call_pc pc (SetRemoteDescription Offer sdp) s)
                   \<lparr>pending := pending s @ [OfferSetRemote (sig_from sg) pc]\<rparr>))"
proof -
  have 1: "length (live_connections (run es (VoiceChat st)) peerId) \<le> 1"
    by (intro registry_inv_at_most_one run_inv registry_inv_VoiceChat)
  have 2: "fst (connectToPeer peerId s) = Awaiting \<and>
      map_of (peers (snd (connectToPeer peerId s))) peerId = Some (length (connections s)) \<and>
      length (connections (snd (connectToPeer peerId s))) = Suc (length (connections s)) \<and>
      sent (snd (connectToPeer peerId s)) = sent s"
    if "enabled s" "map_of (peers s) peerId = None"
    using that by (simp add: connectToPeer_def case_prod_beta Let_def update_conv')
  have 3: "sent (snd (settle k (Resolved v) s)) =
        sent s @ [(peerId, ''offer'', Payload (Some offer) None)]"
    if "lookup (pending s) k = Some (ConnectSetLocal peerId pc offer)" "signalSender s"
    using that by (simp add: settle_def)
  have 4: "handleSignal sg s =
        (Awaiting, (call_pc pc (SetRemoteDescription Offer sdp) s)
                   \<lparr>pending := pending s @ [OfferSetRemote (sig_from sg) pc]\<rparr>)"
    if "enabled s" "signalType sg = ''offer''" "map_of (peers s) (sig_from sg) = Some pc"
      "sig_data sg = Payload sdp cand"
    using that by (simp add: handleSignal_def call_pc_def)
  have 5: "peers (snd (handleSignal sg s)) = peers s \<and>
      length (connections (snd (handleSignal sg s))) = length (connections s)"
    if "enabled s" "signalType sg = ''offer''" "map_of (peers s) (sig_from sg) = Some pc"
    using that by (simp add: handleSignal_def split: payload.splits)
  from 1 2 3 4 5 show ?thesis by blast
qed

text \<open>
  After \<open>init\<close>, \<open>connectToPeer\<close> for b, two offers from b and one more
  \<open>connectToPeer\<close> for b there is the one connection 0.
\<close>

theorem at_most_one_connection_witness:
  "live_connections
     (run [Init (Some [Audio]) (Some \<lparr>currentTime = 0\<rparr>) (\<lambda>i. 0),
           ConnectToPeer ''b'',
           HandleSignal \<lparr>sig_from = ''b'', signalType = ''offer'', sig_data = Payload (Some ''v=0'') None\<rparr>,
           HandleSignal \<lparr>sig_from = ''b'', signalType = ''offer'', sig_data = Payload (Some ''v=0'') None\<rparr>,
           ConnectToPeer ''b'']
        (VoiceChat demo_settings)) ''b'' = [0] \<and>
   map_of (peers (demo_connected demo_settings)) ''b'' = Some 0 \<and>
   sent (demo_connected demo_settings) = [] \<and>
   sent (snd (settle 0 (Resolved [])
           (snd (settle 0 (Resolved ''o'') (setSignalSender (demo_connected demo_settings))))))
     = [(''b'', ''offer'', Payload (Some ''o'') None)] \<and>
   fst (handleSignal \<lparr>sig_from = ''b'', signalType = ''offer'', sig_data = Payload (Some ''v=0'') None\<rparr>
          (demo_connected demo_settings)) = Awaiting \<and>
   length (connections (snd (handleSignal
          \<lparr>sig_from = ''b'', signalType = ''offer'', sig_data = Payload (Some ''v=0'') None\<rparr>
          (demo_connected demo_settings)))) = 1"
  using
    at_most_one_connection [where st = demo_settings and peerId = "''b''"
      and s = "demo_chat demo_settings"
      and es = "[Init (Some [Audio]) (Some \<lparr>currentTime = 0\<rparr>) (\<lambda>i. 0),
           ConnectToPeer ''b'',
           HandleSignal \<lparr>sig_from = ''b'', signalType = ''offer'', sig_data = Payload (Some ''v=0'') None\<rparr>,
           HandleSignal \<lparr>sig_from = ''b'', signalType = ''offer'', sig_data = Payload (Some ''v=0'') None\<rparr>,
           ConnectToPeer ''b'']"]
    at_most_one_connection [where k = 0 and peerId = "''b''" and pc = 0 and offer = "''o''"
      and v = "[]"
      and s = "snd (settle 0 (Resolved ''o'') (setSignalSender (demo_connected demo_settings)))"]
    at_most_one_connection [where pc = 0 and sdp = "Some ''v=0''" and cand = None
      and s = "demo_connected demo_settings"
      and sg = "\<lparr>sig_from = ''b'', signalType = ''offer'', sig_data = Payload (Some ''v=0'') None\<rparr>"]
  apply (simp only: run_def fold_simps comp_apply id_apply step.simps)
  unfolding demo_connected_eq [of demo_settings, simplified] demo_chat_eq [of demo_settings, simplified]
  apply (simp add: VoiceChat_def live_connections_def handleSignal_def connectToPeer_def
      call_pc_def update_at_def lookup_def settle_def setSignalSender_def register_connection_def)
  done

subsection \<open>C2: synchronising with the nearby players twice\<close>

text \<open>
  Claim C2. A second call of \<open>updateNearbyPeers\<close> with the same set, right after the
  first, changes nothing at all: the state it returns is the state it was given. So it
  makes no connection and closes none, the keys of \<open>peers\<close> stay, no continuation is
  started that would send an offer, and neither of the two console lines that go with a
  connect and a disconnect is written.
\<close>

theorem updateNearbyPeers_idempotent:
  "updateNearbyPeers nearbyPlayerIds voiceRange (updateNearbyPeers nearbyPlayerIds voiceRange s)
     = updateNearbyPeers nearbyPlayerIds voiceRange s"
proof (cases "enabled s")
  case False
  then show ?thesis by (simp add: updateNearbyPeers_def)
next
  case True
  define s1 where "s1 = fold connect_new nearbyPlayerIds s"
  define s2 where "s2 = fold (disconnect_gone nearbyPlayerIds) (map fst (peers s1)) s1"
  have s2: "updateNearbyPeers nearbyPlayerIds voiceRange s = s2"
    using True by (simp add: updateNearbyPeers_def s1_def s2_def Let_def)
  have en: "enabled s2" and uid: "userId s2 = userId s"
    using True by (simp_all add: s2_def s1_def fold_disconnect_gone_fields fold_connect_new_fields)
  have peers2: "map_of (peers s2) q =
      (if q \<notin> set nearbyPlayerIds then None else map_of (peers s1) q)" for q
    by (auto simp: s2_def fold_disconnect_gone_fields map_of_eq_None_iff)
  have "connect_new p s2 = s2" if "p \<in> set nearbyPlayerIds" for p
  proof (cases "p = userId s2")
    case True
    then show ?thesis by (simp add: connect_new_id)
  next
    case False
    with that True uid have "map_of (peers s1) p \<noteq> None"
      unfolding s1_def by (simp add: fold_connect_new_registered)
    with that have "map_of (peers s2) p \<noteq> None" by (simp add: peers2)
    then show ?thesis by (simp add: connect_new_id)
  qed
  then have a: "fold connect_new nearbyPlayerIds s2 = s2"
    by (rule fold_id)
  have "disconnect_gone nearbyPlayerIds k s2 = s2" if "k \<in> set (map fst (peers s2))" for k
  proof -
    from that have "map_of (peers s2) k \<noteq> None"
      by (simp add: map_of_eq_None_iff)
    then have "k \<in> set nearbyPlayerIds"
      by (simp add: peers2 split: if_splits)
    then show ?thesis by (rule disconnect_gone_id)
  qed
  then have b: "fold (disconnect_gone nearbyPlayerIds) (map fst (peers s2)) s2 = s2"
    by (rule fold_id)
  from en a b have "updateNearbyPeers nearbyPlayerIds voiceRange s2 = s2"
    by (simp add: updateNearbyPeers_def)
  with s2 show ?thesis by simp
qed

text \<open>The first call connects to c and disconnects from b; the second does nothing.\<close>

theorem updateNearbyPeers_idempotent_witness:
  "console (updateNearbyPeers [''c''] 500 (demo_connected demo_settings)) =
     [InitiatingVoiceConnection ''c'', DisconnectingVoice ''b''] \<and>
   peers (updateNearbyPeers [''c''] 500 (demo_connected demo_settings)) = [(''c'', 1)] \<and>
   updateNearbyPeers [''c''] 500 (updateNearbyPeers [''c''] 500 (demo_connected demo_settings))
     = updateNearbyPeers [''c''] 500 (demo_connected demo_settings)"
  using updateNearbyPeers_idempotent [of "[''c'']" 500 "demo_connected demo_settings"]
  unfolding demo_connected_eq [of demo_settings, simplified]
  by (simp add: VoiceChat_def updateNearbyPeers_def connect_new_def disconnect_gone_def
      connectToPeer_def register_connection_def call_pc_def disconnectPeer_def update_at_def
      Let_def)

subsection \<open>C3: answers and candidates that come late or from nobody\<close>

text \<open>
  Claim C3, amended. An answer is applied (\<open>setRemoteDescription\<close> is called) when the
  sender has a connection in \<open>peers\<close> whose signaling state is not stable; an answer
  from a sender with no connection, or with a stable one, changes nothing and the
  promise is fulfilled. An ice envelope whose data is not \<open>undefined\<close> from a sender
  with no connection changes nothing and the promise is fulfilled. A candidate for a
  sender with a connection is handed to \<open>addIceCandidate\<close>, and when that promise is
  rejected the method writes a warning and is fulfilled all the same.
\<close>

theorem handleSignal_answer_ice:
  "(signalType sg = ''answer'' \<and>
      (map_of (peers s) (sig_from sg) = None \<or>
       (map_of (peers s) (sig_from sg) = Some pc \<and> lookup (connections s) pc = Some p \<and>
        signalingState p = Stable))
      \<longrightarrow> handleSignal sg s = (Fulfilled None, s)) \<and>
   (signalType sg = ''answer'' \<and> enabled s \<and> map_of (peers s) (sig_from sg) = Some pc \<and>
      lookup (connections s) pc = Some p \<and> signalingState p \<noteq> Stable \<and>
      sig_data sg = Payload sdp cand
      \<longrightarrow> handleSignal sg s =
            (Awaiting, (call_pc pc (SetRemoteDescription Answer sdp) s)
                       \<lparr>pending := pending s @ [AnswerSetRemote (sig_from sg) pc]\<rparr>)) \<and>
   (signalType sg = ''ice'' \<and> sig_data sg \<noteq> Undefined \<and> map_of (peers s) (sig_from sg) = None
      \<longrightarrow> handleSignal sg s = (Fulfilled None, s)) \<and>
   (signalType sg = ''ice'' \<and> enabled s \<and> sig_data sg = Payload sdp (Some c) \<and>
      map_of (peers s) (sig_from sg) = Some pc
      \<longrightarrow> handleSignal sg s =
            (Awaiting, (call_pc pc (AddIceCandidate c) s)
                       \<lparr>pending := pending s @ [IceAdd (sig_from sg) pc]\<rparr>)) \<and>
   (lookup (pending s) k = Some (IceAdd peer pc)
      \<longrightarrow> settle k Rejected s =
            (Fulfilled None,
             s\<lparr>console := console s @ [IceCandidateError],
               pending := take k (pending s) @ drop (Suc k) (pending s)\<rparr>))"
proof -
  have 1: "handleSignal sg s = (Fulfilled None, s)"
    if "signalType sg = ''answer''"
      "map_of (peers s) (sig_from sg) = None \<or>
       (map_of (peers s) (sig_from sg) = Some pc \<and> lookup (connections s) pc = Some p \<and>
        signalingState p = Stable)"
    using that by (auto simp: handleSignal_def)
  have 2: "handleSignal sg s =
            (Awaiting, (call_pc pc (SetRemoteDescription Answer sdp) s)
                       \<lparr>pending := pending s @ [AnswerSetRemote (sig_from sg) pc]\<rparr>)"
    if "signalType sg = ''answer''" "enabled s" "map_of (peers s) (sig_from sg) = Some pc"
      "lookup (connections s) pc = Some p" "signalingState p \<noteq> Stable"
      "sig_data sg = Payload sdp cand"
    using that by (simp add: handleSignal_def call_pc_def)
  have 3: "handleSignal sg s = (Fulfilled None, s)"
    if "signalType sg = ''ice''" "sig_data sg \<noteq> Undefined" "map_of (peers s) (sig_from sg) = None"
    using that by (simp add: handleSignal_def split: payload.splits option.splits)
  have 4: "handleSignal sg s =
            (Awaiting, (call_pc pc (AddIceCandidate c) s)
                       \<lparr>pending := pending s @ [IceAdd (sig_from sg) pc]\<rparr>)"
    if "signalType sg = ''ice''" "enabled s" "sig_data sg = Payload sdp (Some c)"
      "map_of (peers s) (sig_from sg) = Some pc"
    using that by (simp add: handleSignal_def call_pc_def)
  have 5: "settle k Rejected s =
            (Fulfilled None,
             s\<lparr>console := console s @ [IceCandidateError],
               pending := take k (pending s) @ drop (Suc k) (pending s)\<rparr>)"
    if "lookup (pending s) k = Some (IceAdd peer pc)"
    using that by (simp add: settle_def)
  from 1 2 3 4 5 show ?thesis by blast
qed

text \<open>
  On the chat connected to b: an answer from b while the connection is stable is
  ignored; once the browser reports have-local-offer it is applied; a candidate from the
  unknown x is dropped; a candidate from b whose \<open>addIceCandidate\<close> is rejected ends
  in a warning and a fulfilled promise.
\<close>

theorem handleSignal_answer_ice_witness:
  "handleSignal \<lparr>sig_from = ''b'', signalType = ''answer'', sig_data = Payload (Some ''v=0'') None\<rparr>
     (demo_connected demo_settings) = (Fulfilled None, demo_connected demo_settings) \<and>
   fst (handleSignal \<lparr>sig_from = ''b'', signalType = ''answer'', sig_data = Payload (Some ''v=0'') None\<rparr>
     (step (SignalingStateChange 0 HaveLocalOffer) (demo_connected demo_settings))) = Awaiting \<and>
   handleSignal \<lparr>sig_from = ''x'', signalType = ''ice'', sig_data = Payload None (Some ''udp'')\<rparr>
     (demo_connected demo_settings) = (Fulfilled None, demo_connected demo_settings) \<and>
   fst (handleSignal \<lparr>sig_from = ''b'', signalType = ''ice'', sig_data = Payload None (Some ''udp'')\<rparr>
     (demo_connected demo_settings)) = Awaiting \<and>
   fst (settle 1 Rejected
     (snd (handleSignal \<lparr>sig_from = ''b'', signalType = ''ice'', sig_data = Payload None (Some ''udp'')\<rparr>
        (demo_connected demo_settings)))) = Fulfilled None"
  using
    handleSignal_answer_ice [where s = "demo_connected demo_settings" and pc = 0
      and sg = "\<lparr>sig_from = ''b'', signalType = ''answer'', sig_data = Payload (Some ''v=0'') None\<rparr>"
      and p = "\<lparr>pc_peer = ''b'', signalingState = Stable, pc_closed = False,
                 pc_calls = [AddTrack 0, CreateOffer]\<rparr>"]
    handleSignal_answer_ice [where s = "step (SignalingStateChange 0 HaveLocalOffer) (demo_connected demo_settings)"
      and pc = 0 and sdp = "Some ''v=0''" and cand = None
      and sg = "\<lparr>sig_from = ''b'', signalType = ''answer'', sig_data = Payload (Some ''v=0'') None\<rparr>"
      and p = "\<lparr>pc_peer = ''b'', signalingState = HaveLocalOffer, pc_closed = False,
                 pc_calls = [AddTrack 0, CreateOffer]\<rparr>"]
    handleSignal_answer_ice [where s = "demo_connected demo_settings"
      and sg = "\<lparr>sig_from = ''x'', signalType = ''ice'', sig_data = Payload None (Some ''udp'')\<rparr>"]
    handleSignal_answer_ice [where s = "demo_connected demo_settings" and pc = 0
      and sdp = None and c = "''udp''"
      and sg = "\<lparr>sig_from = ''b'', signalType = ''ice'', sig_data = Payload None (Some ''udp'')\<rparr>"]
    handleSignal_answer_ice [where k = 1 and peer = "''b''" and pc = 0
      and s = "snd (handleSignal \<lparr>sig_from = ''b'', signalType = ''ice'', sig_data = Payload None (Some ''udp'')\<rparr>
        (demo_connected demo_settings))"]
  unfolding demo_connected_eq [of demo_settings, simplified]
  by (simp add: VoiceChat_def lookup_def update_at_def call_pc_def)

text \<open>
  The claim as it stands fails for an ice envelope without data: reading
  \<open>data.candidate\<close> throws before \<open>peers\<close> is looked at, and the promise of
  \<open>handleSignal\<close> is rejected.
\<close>

theorem handleSignal_ice_undefined_counterexample:
  "handleSignal \<lparr>sig_from = ''x'', signalType = ''ice'', sig_data = Undefined\<rparr>
     (demo_chat demo_settings) = (RejectedWith TypeError, demo_chat demo_settings)"
  unfolding demo_chat_eq [of demo_settings, simplified]
  by (simp add: handleSignal_def VoiceChat_def)

subsection \<open>C4: what \<open>disable\<close> tears down\<close>

text \<open>
  Claim C4, amended. After \<open>disable\<close> the maps \<open>peers\<close>, \<open>gains\<close> and
  \<open>audioElements\<close> are empty, every connection that was in \<open>peers\<close> is closed, every
  track of the local stream is stopped, the stream is \<open>null\<close> and \<open>enabled\<close> is false,
  so that a run of \<open>check\<close> returns at once and schedules no further frame. The
  analyser and the audio context are left as they were.
\<close>

theorem disable_teardown:
  "peers (disable s) = [] \<and> gains (disable s) = [] \<and> audioElements (disable s) = [] \<and>
   \<not> enabled (disable s) \<and> localStream (disable s) = None \<and>
   (\<forall>pc \<in> snd ` set (peers s). pc < length (connections s) \<longrightarrow>
       pc_closed (connections (disable s) ! pc)) \<and>
   (\<forall>ids. localStream s = Some ids \<longrightarrow>
      (\<forall>i \<in> set ids. i < length (tracks s) \<longrightarrow> track_stopped (tracks (disable s) ! i))) \<and>
   analyser (disable s) = analyser s \<and> audioContext (disable s) = audioContext s \<and>
   check n sample (disable s) = (None, disable s)"
proof -
  have a: "pc_closed (connections (disable s) ! pc)"
    if "pc \<in> snd ` set (peers s)" "pc < length (connections s)" for pc
  proof -
    have "pc_closed (forEach (map snd (peers s)) close_pc (connections s) ! pc)"
      by (rule forEach_establish) (use that in \<open>simp_all add: close_pc_def\<close>)
    then show ?thesis
      by (simp add: disable_def Let_def split: option.splits)
  qed
  have b: "track_stopped (tracks (disable s) ! i)"
    if "localStream s = Some ids" "i \<in> set ids" "i < length (tracks s)" for ids i
  proof -
    have "track_stopped (forEach ids (\<lambda>t. t\<lparr>track_stopped := True\<rparr>) (tracks s) ! i)"
      by (rule forEach_establish) (use that in simp_all)
    with that show ?thesis
      by (simp add: disable_def Let_def)
  qed
  have c: "peers (disable s) = [] \<and> gains (disable s) = [] \<and> audioElements (disable s) = [] \<and>
    \<not> enabled (disable s) \<and> localStream (disable s) = None \<and>
    analyser (disable s) = analyser s \<and> audioContext (disable s) = audioContext s"
    by (simp add: disable_def Let_def split: option.splits)
  then have d: "check n sample (disable s) = (None, disable s)"
    by (simp add: check_def)
  from a b c d show ?thesis by blast
qed

text \<open>The chat that heard b: its connection 0 and its track 0 end closed and stopped.\<close>

theorem disable_teardown_witness:
  "peers (demo_heard demo_settings) = [(''b'', 0)] \<and>
   length (connections (demo_heard demo_settings)) = 1 \<and>
   localStream (demo_heard demo_settings) = Some [0] \<and>
   length (tracks (demo_heard demo_settings)) = 1 \<and>
   gains (demo_heard demo_settings) \<noteq> [] \<and>
   pc_closed (connections (disable (demo_heard demo_settings)) ! 0) \<and>
   track_stopped (tracks (disable (demo_heard demo_settings)) ! 0) \<and>
   peers (disable (demo_heard demo_settings)) = [] \<and>
   gains (disable (demo_heard demo_settings)) = []"
  using disable_teardown [of "demo_heard demo_settings" 128 "\<lambda>i. 0"]
  unfolding demo_heard_eq [of demo_settings, simplified]
  by (simp add: VoiceChat_def)

text \<open>
  The claim as it stands fails in its last part: after \<open>init\<close> and \<open>disable\<close> the
  analyser and the audio context are still there.
\<close>

theorem disable_keeps_analysis_path_counterexample:
  "analyser (disable (demo_chat demo_settings)) = Some \<lparr>fftSize = 256\<rparr> \<and>
   audioContext (disable (demo_chat demo_settings)) = Some \<lparr>currentTime = 0\<rparr>"
  unfolding demo_chat_eq [of demo_settings, simplified]
  by (simp add: VoiceChat_def disable_def)

subsection \<open>C5: the volume of a peer by distance\<close>

lemma updateSpatialAudio_noop:
  "map_of (gains s) peerId = None \<or> audioContext s = None \<Longrightarrow>
   updateSpatialAudio peerId distance maxDistance s = s"
  by (auto simp: updateSpatialAudio_def split: option.splits)

lemma updateSpatialAudio_target:
  assumes "map_of (gains s) peerId = Some g" and "audioContext s = Some c"
    and "volume (settings s) = Some v" and "v \<noteq> 0"
  shows "map_of (gains (updateSpatialAudio peerId distance maxDistance s)) peerId =
     Some (g\<lparr>gain_target :=
       Some (max 0 (1 - (distance / maxDistance) powr 0.8) * v, currentTime c, 0.1)\<rparr>)"
  using assms by (simp add: updateSpatialAudio_def js_or_def update_conv')

lemma falloff_antimono:
  fixes maxDistance d1 d2 v :: real
  assumes "0 < maxDistance" and "0 \<le> d1" and "d1 \<le> d2" and "0 \<le> v"
  shows "max 0 (1 - (d2 / maxDistance) powr 0.8) * v \<le> max 0 (1 - (d1 / maxDistance) powr 0.8) * v"
proof -
  from assms have "d1 / maxDistance \<le> d2 / maxDistance" and "0 \<le> d1 / maxDistance"
    by (simp_all add: divide_right_mono)
  then have "(d1 / maxDistance) powr 0.8 \<le> (d2 / maxDistance) powr 0.8"
    by (intro powr_mono2) simp_all
  then have "max 0 (1 - (d2 / maxDistance) powr 0.8) \<le> max 0 (1 - (d1 / maxDistance) powr 0.8)"
    by simp
  with assms(4) show ?thesis by (simp add: mult_right_mono)
qed

lemma falloff_out_of_range:
  fixes maxDistance d v :: real
  assumes "0 < maxDistance" and "maxDistance \<le> d"
  shows "max 0 (1 - (d / maxDistance) powr 0.8) * v = 0"
proof -
  from assms have "1 \<le> d / maxDistance" by simp
  then have "1 powr 0.8 \<le> (d / maxDistance) powr 0.8"
    by (intro powr_mono2) simp_all
  then show ?thesis by simp
qed

text \<open>
  Claim C5 holds for a master volume that is not zero (the three lemmas above) and
  fails for the master volume zero: \<open>settings.volume || 0.7\<close> takes zero for a missing
  value, so that the target is the falloff times 0.7, where the claim says zero.
\<close>

theorem updateSpatialAudio_zero_volume:
  assumes "map_of (gains s) peerId = Some g" and "audioContext s = Some c"
    and "volume (settings s) = Some 0"
  shows "map_of (gains (updateSpatialAudio peerId distance maxDistance s)) peerId =
     Some (g\<lparr>gain_target :=
       Some (max 0 (1 - (distance / maxDistance) powr 0.8) * 0.7, currentTime c, 0.1)\<rparr>)"
  using assms by (simp add: updateSpatialAudio_def js_or_def update_conv')

text \<open>With the volume set to zero, the peer b at distance 0 of 500 is played at 0.7.\<close>

theorem updateSpatialAudio_zero_volume_witness:
  "volume (settings (demo_heard muted_settings)) = Some 0 \<and>
   map_of (gains (demo_heard muted_settings)) ''b'' = Some \<lparr>gain_value = 1, gain_target = None\<rparr> \<and>
   audioContext (demo_heard muted_settings) = Some \<lparr>currentTime = 0\<rparr> \<and>
   map_of (gains (updateSpatialAudio ''b'' 0 500 (demo_heard muted_settings))) ''b'' =
     Some \<lparr>gain_value = 1, gain_target = Some (7 / 10, 0, 1 / 10)\<rparr>"
  using updateSpatialAudio_zero_volume [of "demo_heard muted_settings" "''b''"
      "\<lparr>gain_value = 1, gain_target = None\<rparr>" "\<lparr>currentTime = 0\<rparr>" 0 500]
  unfolding demo_heard_eq [of muted_settings, simplified]
  by (simp add: VoiceChat_def)

subsection \<open>C6: push to talk and the tracks\<close>

text \<open>
  Claim C6, amended. Whatever the gating mode, \<open>setPTT active\<close> records
  \<open>active\<close> in \<open>isPTTActive\<close> and sets the flag
  \<open>enabled\<close> of every audio track of the local stream to \<open>active\<close>; a track that is
  not an audio track of the local stream keeps its flag, and without a local stream no
  track changes.
\<close>

theorem setPTT_gate:
  "isPTTActive (setPTT active s) = active \<and>
   (localStream s = Some ids \<and> i \<in> set ids \<and> lookup (tracks s) i = Some t \<and> kind t = Audio
      \<longrightarrow> lookup (tracks (setPTT active s)) i = Some (t\<lparr>track_enabled := active\<rparr>)) \<and>
   ((localStream s = None \<or> (localStream s = Some ids \<and> i \<notin> set ids)
       \<or> (lookup (tracks s) i = Some t \<and> kind t \<noteq> Audio))
      \<longrightarrow> lookup (tracks (setPTT active s)) i = lookup (tracks s) i)"
  by (auto simp: setPTT_def Let_def lookup_def forEach_idem forEach_notin getAudioTracks_set
      split: option.splits)

text \<open>With push to talk configured, \<open>init\<close> leaves the track off and \<open>setPTT True\<close>
  turns it on.\<close>

theorem setPTT_gate_witness:
  "localStream (demo_chat ptt_settings) = Some [0] \<and>
   lookup (tracks (demo_chat ptt_settings)) 0 =
     Some \<lparr>kind = Audio, track_enabled = False, track_stopped = False\<rparr> \<and>
   lookup (tracks (setPTT True (demo_chat ptt_settings))) 0 =
     Some \<lparr>kind = Audio, track_enabled = True, track_stopped = False\<rparr>"
  using setPTT_gate [where s = "demo_chat ptt_settings" and ids = "[0]" and i = 0
      and t = "\<lparr>kind = Audio, track_enabled = False, track_stopped = False\<rparr>"
      and active = True]
  unfolding demo_chat_eq [of ptt_settings, simplified]
  by (simp add: VoiceChat_def lookup_def)

text \<open>
  The claim as it stands fails in its last part: with push to talk not configured,
  \<open>setPTT False\<close> turns the track off all the same.
\<close>

theorem setPTT_any_mode_counterexample:
  "\<not> ptt (settings (demo_chat demo_settings)) \<and>
   map track_enabled (tracks (demo_chat demo_settings)) = [True] \<and>
   map track_enabled (tracks (setPTT False (demo_chat demo_settings))) = [False]"
  unfolding demo_chat_eq [of demo_settings, simplified]
  by (simp add: VoiceChat_def setPTT_def getAudioTracks_def lookup_def update_at_def)

subsection \<open>C7: \<open>init\<close> and the microphone\<close>

text \<open>
  Claim C7, and where the code leaves it. \<open>init\<close> has four outcomes.
  When \<open>getUserMedia\<close> is rejected it returns false and the state is the state before
  with one more line on the console: \<open>enabled\<close>, the local stream, the scheduled
  frames and the pending continuations are as they were (nothing is retried). When the
  stream has an audio track and the audio context can be made, it returns true,
  \<open>enabled\<close> is set and the first frame is scheduled. In between lie the two failures
  after the stream was acquired: when the constructor of the AudioContext throws, and
  when \<open>createMediaStreamSource\<close> throws. There \<open>init\<close> returns false, leaves
  \<open>enabled\<close> and the scheduled frames as they were, and keeps the stream: the new
  tracks stay in \<open>localStream\<close>, none of them stopped (in the second case the new
  context stays in \<open>audioContext\<close> as well). The claim says that on failure no
  capture stream remains held.
\<close>

theorem init_outcomes:
  "init None ctx sample s = (False, s\<lparr>console := console s @ [VoiceInitFailed]\<rparr>) \<and>
   init (Some kinds) None sample s =
     (False,
      s\<lparr>tracks := tracks s @
           map (\<lambda>k. \<lparr>kind = k, track_enabled = True, track_stopped = False\<rparr>) kinds,
        localStream := Some [length (tracks s) ..< length (tracks s) + length kinds],
        console := console s @ [VoiceInitFailed]\<rparr>) \<and>
   (Audio \<notin> set kinds \<longrightarrow>
      init (Some kinds) (Some c) sample s =
        (False,
         s\<lparr>tracks := tracks s @
              map (\<lambda>k. \<lparr>kind = k, track_enabled = True, track_stopped = False\<rparr>) kinds,
           localStream := Some [length (tracks s) ..< length (tracks s) + length kinds],
           audioContext := Some c,
           console := console s @ [VoiceInitFailed]\<rparr>)) \<and>
   (Audio \<in> set kinds \<longrightarrow>
      fst (init (Some kinds) (Some c) sample s) \<and>
      enabled (snd (init (Some kinds) (Some c) sample s)) \<and>
      localStream (snd (init (Some kinds) (Some c) sample s)) =
        Some [length (tracks s) ..< length (tracks s) + length kinds] \<and>
      animationFrames (snd (init (Some kinds) (Some c) sample s)) = animationFrames s @ [128])"
proof -
  have ok: "fst (init (Some kinds) (Some c) sample s) \<and>
      enabled (snd (init (Some kinds) (Some c) sample s)) \<and>
      localStream (snd (init (Some kinds) (Some c) sample s)) =
        Some [length (tracks s) ..< length (tracks s) + length kinds] \<and>
      animationFrames (snd (init (Some kinds) (Some c) sample s)) = animationFrames s @ [128]"
    if "Audio \<in> set kinds"
    using that
    by (simp add: init_def Let_def startVAD_def frequencyBinCount_def check_def)
  have no_source: "init (Some kinds) (Some c) sample s =
        (False,
         s\<lparr>tracks := tracks s @
              map (\<lambda>k. \<lparr>kind = k, track_enabled = True, track_stopped = False\<rparr>) kinds,
           localStream := Some [length (tracks s) ..< length (tracks s) + length kinds],
           audioContext := Some c,
           console := console s @ [VoiceInitFailed]\<rparr>)"
    if "Audio \<notin> set kinds"
    using that by (simp add: init_def Let_def)
  have no_context: "init (Some kinds) None sample s =
     (False,
      s\<lparr>tracks := tracks s @
           map (\<lambda>k. \<lparr>kind = k, track_enabled = True, track_stopped = False\<rparr>) kinds,
        localStream := Some [length (tracks s) ..< length (tracks s) + length kinds],
        console := console s @ [VoiceInitFailed]\<rparr>)"
    by (simp add: init_def Let_def)
  have no_stream: "init None ctx sample s = (False, s\<lparr>console := console s @ [VoiceInitFailed]\<rparr>)"
    by (simp add: init_def)
  from no_stream no_context no_source ok show ?thesis by blast
qed

text \<open>
  On a new chat: the microphone is granted with one audio track and the constructor of
  the AudioContext throws. \<open>init\<close> returns false, and the track is in
  \<open>localStream\<close>, not stopped. Beside it, the rejected \<open>getUserMedia\<close>, the stream
  with no audio track, and the success.
\<close>

theorem init_outcomes_witness:
  "\<not> fst (init (Some [Audio]) None (\<lambda>i. 0) (VoiceChat demo_settings)) \<and>
   localStream (snd (init (Some [Audio]) None (\<lambda>i. 0) (VoiceChat demo_settings))) = Some [0] \<and>
   tracks (snd (init (Some [Audio]) None (\<lambda>i. 0) (VoiceChat demo_settings))) =
     [\<lparr>kind = Audio, track_enabled = True, track_stopped = False\<rparr>] \<and>
   \<not> enabled (snd (init (Some [Audio]) None (\<lambda>i. 0) (VoiceChat demo_settings))) \<and>
   animationFrames (snd (init (Some [Audio]) None (\<lambda>i. 0) (VoiceChat demo_settings))) = [] \<and>
   init None None (\<lambda>i. 0) (VoiceChat demo_settings) =
     (False, (VoiceChat demo_settings)\<lparr>console := [VoiceInitFailed]\<rparr>) \<and>
   localStream (snd (init None None (\<lambda>i. 0) (VoiceChat demo_settings))) = None \<and>
   Audio \<notin> set [Video] \<and>
   \<not> fst (init (Some [Video]) (Some \<lparr>currentTime = 0\<rparr>) (\<lambda>i. 0) (VoiceChat demo_settings)) \<and>
   localStream (snd (init (Some [Video]) (Some \<lparr>currentTime = 0\<rparr>) (\<lambda>i. 0)
     (VoiceChat demo_settings))) = Some [0] \<and>
   Audio \<in> set [Audio] \<and>
   fst (init (Some [Audio]) (Some \<lparr>currentTime = 0\<rparr>) (\<lambda>i. 0) (VoiceChat demo_settings)) \<and>
   enabled (demo_chat demo_settings) \<and>
   animationFrames (demo_chat demo_settings) = [128]"
  using init_outcomes [where ctx = None and sample = "\<lambda>i. 0" and s = "VoiceChat demo_settings"
      and kinds = "[Audio]" and c = "\<lparr>currentTime = 0\<rparr>"]
    init_outcomes [where ctx = None and sample = "\<lambda>i. 0" and s = "VoiceChat demo_settings"
      and kinds = "[Video]" and c = "\<lparr>currentTime = 0\<rparr>"]
  by (simp add: VoiceChat_def)

subsection \<open>C8: one frame of voice activity detection\<close>

text \<open>
  Claim C8, amended. Take a run of \<open>check\<close> on an enabled chat with an analyser, a
  data array that is not empty, and a sensitivity that is not 0 (the setting may be
  missing). The level is the mean of the bytes divided by 255 and lies between 0 and 1.
  The threshold is \<open>vadThreshold * (1 + (1 - sensitivity))\<close>, a missing sensitivity
  counting as 1/2. With push to talk configured, \<open>isSpeaking\<close>
  becomes: the gate is active and the level is above half the threshold. Otherwise,
  unless the setting \<open>vad\<close> is \<open>false\<close>, it becomes: the level is above the
  threshold; when \<open>vad\<close> is \<open>false\<close> it keeps its value. \<open>onSpeakingChange\<close>, if
  set, is called exactly when \<open>isSpeaking\<close> changed in this run; \<open>onVolumeUpdate\<close>,
  if set, is called in every run; and the next frame is scheduled.

  Nothing is said here for the sensitivity 0: the code reads it with \<open>|| 0.5\<close>, which
  takes 0 for a missing value.
\<close>

theorem check_voice_activity:
  assumes "enabled s" and "analyser s = Some a" and "0 < n"
    and "sensitivity (settings s) \<noteq> Some 0"
  shows "let level = real (sum_list (map unat (map sample [0..<n]))) / real n / 255;
             threshold = vadThreshold s *
               (1 + (1 - (case sensitivity (settings s) of None \<Rightarrow> 1 / 2 | Some v \<Rightarrow> v)));
             s' = snd (check n sample s)
         in 0 \<le> level \<and> level \<le> 1 \<and> fst (check n sample s) = None \<and>
            isSpeaking s' =
              (if ptt (settings s) then isPTTActive s \<and> level > threshold / 2
               else if vad (settings s) = Some False then isSpeaking s
               else level > threshold) \<and>
            callbacks s' = callbacks s @
              (if isSpeaking s' \<noteq> isSpeaking s \<and> onSpeakingChange s
               then [SpeakingChange (isSpeaking s')] else []) @
              (if onVolumeUpdate s then [VolumeUpdate level] else []) \<and>
            animationFrames s' = animationFrames s @ [n]"
proof -
  have js: "js_or (sensitivity (settings s)) (1 / 2) =
      (case sensitivity (settings s) of None \<Rightarrow> 1 / 2 | Some v \<Rightarrow> v)"
    using assms(4) by (simp add: js_or_def split: option.splits)
  show ?thesis
    using assms(1-3) level_bounds [OF assms(3), of sample]
    by (simp add: check_def Let_def js del: map_map)
qed

text \<open>A loud frame on the silent chat: \<open>isSpeaking\<close> becomes true and the callback,
  once set, is called with true.\<close>

theorem check_voice_activity_witness:
  "enabled (step (SetOnSpeakingChange True) (demo_chat demo_settings)) \<and>
   analyser (step (SetOnSpeakingChange True) (demo_chat demo_settings)) = Some \<lparr>fftSize = 256\<rparr> \<and>
   (0::nat) < 128 \<and>
   sensitivity (settings (step (SetOnSpeakingChange True) (demo_chat demo_settings))) \<noteq> Some 0 \<and>
   isSpeaking (snd (check 128 (\<lambda>i. 255) (step (SetOnSpeakingChange True) (demo_chat demo_settings)))) \<and>
   callbacks (snd (check 128 (\<lambda>i. 255) (step (SetOnSpeakingChange True) (demo_chat demo_settings))))
     = [SpeakingChange True]"
  using check_voice_activity [of "step (SetOnSpeakingChange True) (demo_chat demo_settings)"
      "\<lparr>fftSize = 256\<rparr>" 128 "\<lambda>i. 255"]
  unfolding demo_chat_eq [of demo_settings, simplified]
  by (simp add: Let_def sum_list_const VoiceChat_def del: map_map)

text \<open>
  The claim as it stands fails when the setting \<open>vad\<close> is \<open>false\<close> and push to talk
  is off: the frame measures the level 1, far above the threshold, and \<open>isSpeaking\<close>
  stays false.
\<close>

theorem check_vad_off_counterexample:
  "callbacks (snd (frame (\<lambda>i. 255) (step (SetOnVolumeUpdate True) (demo_chat novad_settings))))
     = [VolumeUpdate 1] \<and>
   \<not> isSpeaking (snd (frame (\<lambda>i. 255) (step (SetOnVolumeUpdate True) (demo_chat novad_settings)))) \<and>
   isSpeaking_claimed (1 / 50) (1 / 2) False False 1"
  unfolding demo_chat_eq [of novad_settings, simplified]
  by (simp add: frame_def check_def Let_def sum_list_const js_or_def VoiceChat_def
      isSpeaking_claimed_def del: map_map)

subsection \<open>C9: one tick of a bot\<close>




subsection \<open>C10: signals while the chat is disabled\<close>

text \<open>
  Claim C10. While \<open>enabled\<close> is false, \<open>handleSignal\<close> returns at once for every
  envelope: the promise is fulfilled and the state is the state before, so that no
  connection is made, nothing is sent and the three maps are as they were.
\<close>

theorem handleSignal_disabled:
  "\<not> enabled s \<Longrightarrow> handleSignal sg s = (Fulfilled None, s)"
  by (simp add: handleSignal_def)

theorem handleSignal_disabled_witness:
  "\<not> enabled (disable (demo_heard demo_settings)) \<and>
   handleSignal \<lparr>sig_from = ''c'', signalType = ''offer'', sig_data = Payload (Some ''v=0'') None\<rparr>
     (disable (demo_heard demo_settings)) = (Fulfilled None, disable (demo_heard demo_settings))"
  using handleSignal_disabled [of "disable (demo_heard demo_settings)"
      "\<lparr>sig_from = ''c'', signalType = ''offer'', sig_data = Payload (Some ''v=0'') None\<rparr>"]
  unfolding demo_heard_eq [of demo_settings, simplified]
  by (simp add: VoiceChat_def disable_def)

end
